theory Spec2Isabelle
  imports Complex_Main "HOL-Library.Word"
begin

unbundle bit_operations_syntax

section \<open>Data model of \<^verbatim>\<open>scripts/import_flow_xlsx.py\<close>\<close>

text \<open>
  The script reads a workbook with pandas, turns the rows of six sheets into
  dictionaries and posts them in chunks to a REST endpoint.  Python values that
  can sit in a cell are modelled by \<open>pyval\<close>; a \<open>str\<close> is a list of
  code points below 256 (Isabelle's \<open>char\<close>), which covers ASCII and Latin-1.
  A float is either NaN, an infinity or a finite number; the rounding of
  finite values to binary64 is not part of the model and no statement below
  depends on it.
\<close>

datatype pyfloat = FNaN | FInf bool | FNum real

record datetime =
  year :: nat
  month :: nat
  day :: nat
  hour :: nat
  minute :: nat
  second :: nat
  microsecond :: nat
  tzinfo :: "int option"  \<comment> \<open>UTC offset in microseconds, \<open>None\<close> for a naive value\<close>

datatype pyval =
    PNone
  | PBool bool
  | PInt int
  | PFloat pyfloat
  | PStr string
  | PTimestamp datetime  \<comment> \<open>\<open>pd.Timestamp\<close>, already at microsecond precision\<close>

datatype error =
    SystemExit string
  | RuntimeError string
  | ValueError
  | TypeError
  | AttributeError
  | KeyError
  | OverflowError

subsection \<open>Decimal rendering\<close>

definition digit_char :: "nat \<Rightarrow> char" where
  "digit_char n = ''0123456789'' ! n"

fun dec :: "nat \<Rightarrow> string" where
  "dec n = (if n < 10 then [digit_char n] else dec (n div 10) @ [digit_char (n mod 10)])"

declare dec.simps [simp del]

definition zfill :: "nat \<Rightarrow> string \<Rightarrow> string" where
  "zfill w s = replicate (w - length s) (CHR ''0'') @ s"

text \<open>\<open>fmt w n\<close> is Python's \<open>"%0wd" % n\<close> for a non-negative \<open>n\<close>.\<close>

definition fmt :: "nat \<Rightarrow> nat \<Rightarrow> string" where
  "fmt w n = zfill w (dec n)"

subsection \<open>\<open>datetime.isoformat\<close>\<close>

text \<open>
  The offset is printed as \<open>+HH:MM\<close>, followed by \<open>:SS\<close> when it has seconds
  and by \<open>.ffffff\<close> when it has microseconds.
\<close>

definition format_offset :: "int \<Rightarrow> string" where
  "format_offset off =
     (let a = nat \<bar>off\<bar>;
          us = a mod 1000000;
          s = (a div 1000000) mod 60;
          m = (a div 60000000) mod 60;
          h = a div 3600000000
      in (if off < 0 then ''-'' else ''+'') @ fmt 2 h @ '':'' @ fmt 2 m
         @ (if s \<noteq> 0 \<or> us \<noteq> 0 then '':'' @ fmt 2 s else [])
         @ (if us \<noteq> 0 then ''.'' @ fmt 6 us else []))"

definition isoformat :: "datetime \<Rightarrow> string" where
  "isoformat d =
     fmt 4 (year d) @ ''-'' @ fmt 2 (month d) @ ''-'' @ fmt 2 (day d) @ ''T''
     @ fmt 2 (hour d) @ '':'' @ fmt 2 (minute d) @ '':'' @ fmt 2 (second d)
     @ (if microsecond d \<noteq> 0 then ''.'' @ fmt 6 (microsecond d) else [])
     @ (case tzinfo d of None \<Rightarrow> [] | Some off \<Rightarrow> format_offset off)"

section \<open>The value normalizer \<open>clean\<close>\<close>

text \<open>
  \<^verbatim>\<open>
  def clean(value):
      if value is None: return None
      if isinstance(value, float) and math.isnan(value): return None
      if isinstance(value, pd.Timestamp): return value.to_pydatetime().isoformat()
      return value
  \<close>
\<close>

fun clean :: "pyval \<Rightarrow> pyval" where
  "clean PNone = PNone"
| "clean (PFloat f) = (if f = FNaN then PNone else PFloat f)"
| "clean (PTimestamp d) = PStr (isoformat d)"
| "clean v = v"

text \<open>Python truthiness, as used by \<open>not x\<close> and \<open>x or y\<close>.\<close>

fun truthy :: "pyval \<Rightarrow> bool" where
  "truthy PNone = False"
| "truthy (PBool b) = b"
| "truthy (PInt i) = (i \<noteq> 0)"
| "truthy (PFloat f) = (f \<noteq> FNum 0)"
| "truthy (PStr s) = (s \<noteq> [])"
| "truthy (PTimestamp d) = True"

definition py_or :: "pyval \<Rightarrow> pyval \<Rightarrow> pyval" where
  "py_or a b = (if truthy a then a else b)"

section \<open>The idempotency key builder\<close>

subsection \<open>\<open>str\<close> operations\<close>

text \<open>
  \<open>str.split()\<close> without arguments splits at runs of whitespace; joining the
  pieces with the empty string removes every whitespace character.  Below 256
  the whitespace code points of Python are 9 to 13, 28 to 32, 133 and 160.
\<close>

definition is_space :: "char \<Rightarrow> bool" where
  "is_space c = (let n = (of_char c :: nat) in
     (9 \<le> n \<and> n \<le> 13) \<or> (28 \<le> n \<and> n \<le> 32) \<or> n = 133 \<or> n = 160)"

definition join_split :: "string \<Rightarrow> string" where
  "join_split s = filter (\<lambda>c. \<not> is_space c) s"

text \<open>
  \<open>str.lower()\<close> below 256: the letters A to Z and the Latin-1 capitals 192 to
  222 (without the multiplication sign 215) move up by 32.
\<close>

definition lower_char :: "char \<Rightarrow> char" where
  "lower_char c = (let n = (of_char c :: nat) in
     if (65 \<le> n \<and> n \<le> 90) \<or> (192 \<le> n \<and> n \<le> 222 \<and> n \<noteq> 215) then char_of (n + 32) else c)"

definition lower :: "string \<Rightarrow> string" where
  "lower s = map lower_char s"

text \<open>\<open>str.replace(old, new)\<close> for a one-character \<open>old\<close>.\<close>

definition replace_char :: "char \<Rightarrow> string \<Rightarrow> string \<Rightarrow> string" where
  "replace_char c new s = concat (map (\<lambda>x. if x = c then new else [x]) s)"

text \<open>UTF-8 encoding of code points below 256, as a list of byte values.\<close>

definition utf8 :: "string \<Rightarrow> nat list" where
  "utf8 s = concat (map (\<lambda>c. let n = (of_char c :: nat) in
     if n < 128 then [n] else [192 + n div 64, 128 + n mod 64]) s)"

subsection \<open>\<open>datetime.fromisoformat\<close>\<close>

text \<open>
  The standard library parses the format that \<open>isoformat\<close> writes,
  \<^verbatim>\<open>YYYY-MM-DD[*HH[:MM[:SS[.fff[fff]]]][+HH:MM[:SS[.ffffff]]]]\<close>,
  where \<^verbatim>\<open>*\<close> is any single character, and raises \<open>ValueError\<close> on
  everything else.  This is the grammar of Python 3.7 to 3.10; it is the reason
  for the script's replacement of \<open>Z\<close> before parsing.  The constructor then
  checks the ranges of the fields.
\<close>

definition is_digit :: "char \<Rightarrow> bool" where
  "is_digit c = (let n = (of_char c :: nat) in 48 \<le> n \<and> n \<le> 57)"

definition digits_val :: "string \<Rightarrow> nat" where
  "digits_val s = foldl (\<lambda>acc c. 10 * acc + (of_char c - 48)) 0 s"

definition parse_digits :: "string \<Rightarrow> nat option" where
  "parse_digits s = (if s \<noteq> [] \<and> list_all is_digit s then Some (digits_val s) else None)"

definition two_digits :: "string \<Rightarrow> (nat \<times> string) option" where
  "two_digits s =
     (if length s < 2 then None
      else map_option (\<lambda>v. (v, drop 2 s)) (parse_digits (take 2 s)))"

definition parse_isoformat_date :: "string \<Rightarrow> (nat \<times> nat \<times> nat) option" where
  "parse_isoformat_date s =
     (if length s = 10 \<and> s ! 4 = CHR ''-'' \<and> s ! 7 = CHR ''-'' then
        (case (parse_digits (take 4 s), parse_digits (take 2 (drop 5 s)), parse_digits (drop 8 s)) of
           (Some y, Some m, Some d) \<Rightarrow> Some (y, m, d)
         | _ \<Rightarrow> None)
      else None)"

definition parse_fraction :: "string \<Rightarrow> nat option" where
  "parse_fraction f =
     (if length f = 3 then map_option (\<lambda>u. u * 1000) (parse_digits f)
      else if length f = 6 then parse_digits f
      else None)"

text \<open>\<open>HH[:MM[:SS[.fff[fff]]]]\<close>, giving hour, minute, second and microsecond.\<close>

definition parse_hh_mm_ss_ff :: "string \<Rightarrow> (nat \<times> nat \<times> nat \<times> nat) option" where
  "parse_hh_mm_ss_ff s =
     (case two_digits s of
        None \<Rightarrow> None
      | Some (h, r1) \<Rightarrow>
          (case r1 of
             [] \<Rightarrow> Some (h, 0, 0, 0)
           | c1 # r1' \<Rightarrow>
               if c1 \<noteq> CHR '':'' then None
               else (case two_digits r1' of
                  None \<Rightarrow> None
                | Some (m, r2) \<Rightarrow>
                    (case r2 of
                       [] \<Rightarrow> Some (h, m, 0, 0)
                     | c2 # r2' \<Rightarrow>
                         if c2 \<noteq> CHR '':'' then None
                         else (case two_digits r2' of
                            None \<Rightarrow> None
                          | Some (sec, r3) \<Rightarrow>
                              (case r3 of
                                 [] \<Rightarrow> Some (h, m, sec, 0)
                               | c3 # f \<Rightarrow>
                                   if c3 \<noteq> CHR ''.'' then None
                                   else map_option (\<lambda>u. (h, m, sec, u)) (parse_fraction f)))))))"

definition is_sign :: "char \<Rightarrow> bool" where
  "is_sign c = (c = CHR ''+'' \<or> c = CHR ''-'')"

text \<open>
  The offset part after the sign has 5, 8 or 15 characters.  The result is the
  offset in microseconds; \<open>timezone\<close> accepts it only strictly between minus
  and plus 24 hours.
\<close>

definition parse_offset :: "char \<Rightarrow> string \<Rightarrow> int option" where
  "parse_offset sg tz =
     (if length tz \<notin> {5, 8, 15} then None
      else (case parse_hh_mm_ss_ff tz of
         None \<Rightarrow> None
       | Some (h, m, s, u) \<Rightarrow>
           (let us = int (((h * 60 + m) * 60 + s) * 1000000 + u)
            in if us < 86400000000 then Some (if sg = CHR ''-'' then - us else us) else None)))"

definition parse_isoformat_time ::
    "string \<Rightarrow> ((nat \<times> nat \<times> nat \<times> nat) \<times> int option) option" where
  "parse_isoformat_time t =
     (let timestr = takeWhile (\<lambda>c. \<not> is_sign c) t;
          rest = dropWhile (\<lambda>c. \<not> is_sign c) t
      in (case parse_hh_mm_ss_ff timestr of
            None \<Rightarrow> None
          | Some hmsf \<Rightarrow>
              (case rest of
                 [] \<Rightarrow> Some (hmsf, None)
               | sg # tz \<Rightarrow> map_option (\<lambda>off. (hmsf, Some off)) (parse_offset sg tz))))"

definition is_leap :: "nat \<Rightarrow> bool" where
  "is_leap y = (y mod 4 = 0 \<and> (y mod 100 \<noteq> 0 \<or> y mod 400 = 0))"

definition days_in_month :: "nat \<Rightarrow> nat \<Rightarrow> nat" where
  "days_in_month y m =
     (if m = 2 then (if is_leap y then 29 else 28)
      else if m \<in> {4, 6, 9, 11} then 30 else 31)"

text \<open>The range checks of the \<open>datetime\<close> constructor.\<close>

definition valid_datetime :: "datetime \<Rightarrow> bool" where
  "valid_datetime d =
     (1 \<le> year d \<and> year d \<le> 9999 \<and> 1 \<le> month d \<and> month d \<le> 12 \<and>
      1 \<le> day d \<and> day d \<le> days_in_month (year d) (month d) \<and>
      hour d < 24 \<and> minute d < 60 \<and> second d < 60 \<and> microsecond d < 1000000)"

definition mk_datetime ::
    "nat \<times> nat \<times> nat \<Rightarrow> (nat \<times> nat \<times> nat \<times> nat) \<times> int option \<Rightarrow> error + datetime" where
  "mk_datetime ymd t =
     (case (ymd, t) of ((y, m, d), ((hh, mi, ss, us), tz)) \<Rightarrow>
        (let dt = \<lparr>year = y, month = m, day = d, hour = hh, minute = mi, second = ss,
                   microsecond = us, tzinfo = tz\<rparr>
         in if valid_datetime dt then Inr dt else Inl ValueError))"

definition fromisoformat :: "string \<Rightarrow> error + datetime" where
  "fromisoformat s =
     (case parse_isoformat_date (take 10 s) of
        None \<Rightarrow> Inl ValueError
      | Some ymd \<Rightarrow>
          if length s = 10 then mk_datetime ymd ((0, 0, 0, 0), None)
          else (case parse_isoformat_time (drop 11 s) of
                  None \<Rightarrow> Inl ValueError
                | Some t \<Rightarrow> mk_datetime ymd t))"

subsection \<open>\<open>normalize_minute\<close>\<close>

text \<open>
  \<^verbatim>\<open>
  def normalize_minute(ts: str) -> str:
      dt = datetime.fromisoformat(ts.replace('Z', '+00:00'))
      return dt.replace(second=0, microsecond=0).isoformat()[:16]
  \<close>
\<close>

definition normalize_minute :: "string \<Rightarrow> error + string" where
  "normalize_minute ts =
     (case fromisoformat (replace_char (CHR ''Z'') ''+00:00'' ts) of
        Inl e \<Rightarrow> Inl e
      | Inr dt \<Rightarrow> Inr (take 16 (isoformat (dt\<lparr>second := 0, microsecond := 0\<rparr>))))"

subsection \<open>\<open>hashlib.sha256\<close>\<close>

text \<open>
  The digest is the library's SHA-256 of FIPS 180-4, written out on 32-bit
  values held in \<open>nat\<close> with the wrap-around explicit, so that digests of
  concrete messages can be computed and compared.
\<close>

definition add32 :: "nat \<Rightarrow> nat \<Rightarrow> nat" where
  "add32 a b = (a + b) mod 4294967296"

definition rotr :: "nat \<Rightarrow> nat \<Rightarrow> nat" where
  "rotr n x = x div 2 ^ n + (x mod 2 ^ n) * 2 ^ (32 - n)"

definition shr :: "nat \<Rightarrow> nat \<Rightarrow> nat" where
  "shr n x = x div 2 ^ n"

definition not32 :: "nat \<Rightarrow> nat" where
  "not32 x = 4294967295 - x"

definition Ch :: "nat \<Rightarrow> nat \<Rightarrow> nat \<Rightarrow> nat" where
  "Ch x y z = (x AND y) XOR (not32 x AND z)"

definition Maj :: "nat \<Rightarrow> nat \<Rightarrow> nat \<Rightarrow> nat" where
  "Maj x y z = (x AND y) XOR (x AND z) XOR (y AND z)"

definition bsig0 :: "nat \<Rightarrow> nat" where
  "bsig0 x = rotr 2 x XOR rotr 13 x XOR rotr 22 x"

definition bsig1 :: "nat \<Rightarrow> nat" where
  "bsig1 x = rotr 6 x XOR rotr 11 x XOR rotr 25 x"

definition ssig0 :: "nat \<Rightarrow> nat" where
  "ssig0 x = rotr 7 x XOR rotr 18 x XOR shr 3 x"

definition ssig1 :: "nat \<Rightarrow> nat" where
  "ssig1 x = rotr 17 x XOR rotr 19 x XOR shr 10 x"

definition K256 :: "nat list" where
  "K256 = [
  1116352408, 1899447441, 3049323471, 3921009573, 961987163, 1508970993, 2453635748, 2870763221,
  3624381080, 310598401, 607225278, 1426881987, 1925078388, 2162078206, 2614888103, 3248222580,
  3835390401, 4022224774, 264347078, 604807628, 770255983, 1249150122, 1555081692, 1996064986,
  2554220882, 2821834349, 2952996808, 3210313671, 3336571891, 3584528711, 113926993, 338241895,
  666307205, 773529912, 1294757372, 1396182291, 1695183700, 1986661051, 2177026350, 2456956037,
  2730485921, 2820302411, 3259730800, 3345764771, 3516065817, 3600352804, 4094571909, 275423344,
  430227734, 506948616, 659060556, 883997877, 958139571, 1322822218, 1537002063, 1747873779,
  1955562222, 2024104815, 2227730452, 2361852424, 2428436474, 2756734187, 3204031479, 3329325298]"

definition H0 :: "nat list" where
  "H0 = [1779033703, 3144134277, 1013904242, 2773480762,
         1359893119, 2600822924, 528734635, 1541459225]"

text \<open>
  The message schedule is kept as a window of the last sixteen words: the word
  of the current round is its head, and the next word is appended.
\<close>

definition sched_next :: "nat list \<Rightarrow> nat" where
  "sched_next w = add32 (add32 (add32 (ssig1 (w ! 14)) (w ! 9)) (ssig0 (w ! 1))) (w ! 0)"

fun mix :: "nat \<Rightarrow> nat \<Rightarrow> nat list \<Rightarrow> nat list" where
  "mix t1 t2 [a, b, c, d, e, f, g, h] = [add32 t1 t2, a, b, c, add32 d t1, e, f, g]"
| "mix t1 t2 s = s"

fun round_step :: "nat list \<Rightarrow> nat \<Rightarrow> nat \<Rightarrow> nat list" where
  "round_step [a, b, c, d, e, f, g, h] k w =
     mix (add32 (add32 (add32 (add32 h (bsig1 e)) (Ch e f g)) k) w)
         (add32 (bsig0 a) (Maj a b c)) [a, b, c, d, e, f, g, h]"
| "round_step s k w = s"

fun rounds :: "nat list \<Rightarrow> nat list \<Rightarrow> nat list \<Rightarrow> nat list" where
  "rounds s w [] = s"
| "rounds s w (k # ks) = rounds (round_step s k (hd w)) (tl w @ [sched_next w]) ks"

definition compress :: "nat list \<Rightarrow> nat list \<Rightarrow> nat list" where
  "compress hs blk = map2 add32 hs (rounds hs blk K256)"

fun be_words :: "nat list \<Rightarrow> nat list" where
  "be_words (a # b # c # d # r) = (((a * 256 + b) * 256 + c) * 256 + d) # be_words r"
| "be_words r = []"

definition be_bytes8 :: "nat \<Rightarrow> nat list" where
  "be_bytes8 v = map (\<lambda>i. v div 256 ^ i mod 256) [7, 6, 5, 4, 3, 2, 1, 0]"

definition pad :: "nat list \<Rightarrow> nat list" where
  "pad m = m @ [128] @ replicate ((119 - length m mod 64) mod 64) 0 @ be_bytes8 (8 * length m)"

function sha_blocks :: "nat list \<Rightarrow> nat list \<Rightarrow> nat list" where
  "sha_blocks hs bs =
     (if bs = [] then hs else sha_blocks (compress hs (be_words (take 64 bs))) (drop 64 bs))"
  by pat_completeness auto
termination
  by (relation "measure (\<lambda>(hs, bs). length bs)") auto

declare sha_blocks.simps [simp del]

definition hex_digit :: "nat \<Rightarrow> char" where
  "hex_digit n = ''0123456789abcdef'' ! n"

definition hex32 :: "nat \<Rightarrow> string" where
  "hex32 w = map (\<lambda>i. hex_digit (w div 16 ^ i mod 16)) [7, 6, 5, 4, 3, 2, 1, 0]"

definition sha256 :: "nat list \<Rightarrow> string" where
  "sha256 m = concat (map hex32 (sha_blocks H0 (pad m)))"

subsection \<open>\<open>build_idem\<close>\<close>

text \<open>
  \<^verbatim>\<open>
  def build_idem(sms: str, ts: str) -> str:
      content = ''.join(sms.split()).lower()[:100]
      base = f"{content}|{normalize_minute(ts)}"
      return hashlib.sha256(base.encode('utf-8')).hexdigest()
  \<close>
\<close>

definition content_of :: "string \<Rightarrow> string" where
  "content_of sms = take 100 (lower (join_split sms))"

definition idem_base :: "string \<Rightarrow> string \<Rightarrow> error + string" where
  "idem_base sms ts =
     (case normalize_minute ts of
        Inl e \<Rightarrow> Inl e
      | Inr m \<Rightarrow> Inr (content_of sms @ ''|'' @ m))"

definition build_idem :: "string \<Rightarrow> string \<Rightarrow> error + string" where
  "build_idem sms ts =
     (case idem_base sms ts of
        Inl e \<Rightarrow> Inl e
      | Inr base \<Rightarrow> Inr (sha256 (utf8 base)))"

text \<open>
  The call site passes whatever the cells hold.  A value that is not a
  \<open>str\<close> has neither \<open>split\<close> nor \<open>replace\<close>: the call raises
  \<open>AttributeError\<close>.
\<close>

fun call_build_idem :: "pyval \<Rightarrow> pyval \<Rightarrow> error + string" where
  "call_build_idem (PStr sms) (PStr ts) = build_idem sms ts"
| "call_build_idem a b = Inl AttributeError"

section \<open>Conversions at the call sites\<close>

subsection \<open>\<open>float(x)\<close>\<close>

text \<open>
  \<open>float\<close> of a string strips whitespace and accepts an optional sign
  followed by \<open>inf\<close>, \<open>infinity\<close>, \<open>nan\<close> (in any case) or a decimal
  number with an optional exponent; groups of digits may hold single
  underscores between digits.  Everything else raises \<open>ValueError\<close>.  The
  value of a decimal is kept exact.
\<close>

definition strip :: "string \<Rightarrow> string" where
  "strip s = rev (dropWhile is_space (rev (dropWhile is_space s)))"

fun digitpart_ok :: "string \<Rightarrow> bool" where
  "digitpart_ok [] = False"
| "digitpart_ok [c] = is_digit c"
| "digitpart_ok (c # d # r) =
     (is_digit c \<and> (if d = CHR ''_'' then r \<noteq> [] \<and> digitpart_ok r else digitpart_ok (d # r)))"

definition digitpart_val :: "string \<Rightarrow> nat" where
  "digitpart_val s = digits_val (filter is_digit s)"

text \<open>A number without exponent: the value of all its digits and the count of fraction digits.\<close>

definition parse_number :: "string \<Rightarrow> (nat \<times> nat) option" where
  "parse_number s =
     (let ip = takeWhile (\<lambda>c. c \<noteq> CHR ''.'') s;
          rest = dropWhile (\<lambda>c. c \<noteq> CHR ''.'') s
      in (case rest of
            [] \<Rightarrow> if digitpart_ok ip then Some (digitpart_val ip, 0) else None
          | dot # fp \<Rightarrow>
              if (ip = [] \<or> digitpart_ok ip) \<and> (fp = [] \<or> digitpart_ok fp) \<and> \<not> (ip = [] \<and> fp = [])
              then Some (digitpart_val (ip @ fp), length (filter is_digit fp))
              else None))"

definition parse_exponent :: "string \<Rightarrow> int option" where
  "parse_exponent s =
     (case s of
        [] \<Rightarrow> None
      | c # r \<Rightarrow>
          if c = CHR ''-'' then (if digitpart_ok r then Some (- int (digitpart_val r)) else None)
          else if c = CHR ''+'' then (if digitpart_ok r then Some (int (digitpart_val r)) else None)
          else (if digitpart_ok s then Some (int (digitpart_val s)) else None))"

definition scale10 :: "nat \<Rightarrow> nat \<Rightarrow> int \<Rightarrow> real" where
  "scale10 v k x =
     (if 0 \<le> x then real v * 10 ^ nat x / 10 ^ k else real v / 10 ^ (k + nat (- x)))"

definition is_exp_mark :: "char \<Rightarrow> bool" where
  "is_exp_mark c = (c = CHR ''e'' \<or> c = CHR ''E'')"

definition parse_abs_float :: "bool \<Rightarrow> string \<Rightarrow> pyfloat option" where
  "parse_abs_float neg b =
     (if lower b = ''inf'' \<or> lower b = ''infinity'' then Some (FInf neg)
      else if lower b = ''nan'' then Some FNaN
      else (case parse_number (takeWhile (\<lambda>c. \<not> is_exp_mark c) b) of
              None \<Rightarrow> None
            | Some (v, k) \<Rightarrow>
                (case dropWhile (\<lambda>c. \<not> is_exp_mark c) b of
                   [] \<Rightarrow> Some (FNum ((if neg then -1 else 1) * scale10 v k 0))
                 | e # ex \<Rightarrow>
                     (case parse_exponent ex of
                        None \<Rightarrow> None
                      | Some x \<Rightarrow> Some (FNum ((if neg then -1 else 1) * scale10 v k x))))))"

definition float_of_string :: "string \<Rightarrow> pyfloat option" where
  "float_of_string s =
     (case strip s of
        [] \<Rightarrow> None
      | c # r \<Rightarrow>
          if c = CHR ''-'' then parse_abs_float True r
          else if c = CHR ''+'' then parse_abs_float False r
          else parse_abs_float False (c # r))"

text \<open>
  An \<open>int\<close> beyond the range of a double raises \<open>OverflowError\<close>; a value
  without \<open>__float__\<close> raises \<open>TypeError\<close>.
\<close>

fun py_float :: "pyval \<Rightarrow> error + pyfloat" where
  "py_float PNone = Inl TypeError"
| "py_float (PBool b) = Inr (FNum (if b then 1 else 0))"
| "py_float (PInt i) =
     (if \<bar>i\<bar> < 2 ^ 1024 - 2 ^ 970 then Inr (FNum (real_of_int i)) else Inl OverflowError)"
| "py_float (PFloat f) = Inr f"
| "py_float (PStr s) = (case float_of_string s of None \<Rightarrow> Inl ValueError | Some f \<Rightarrow> Inr f)"
| "py_float (PTimestamp d) = Inl TypeError"

subsection \<open>\<open>str(x)\<close>\<close>

text \<open>
  The text of a float is Python's shortest round-trip \<open>repr\<close>; it belongs to
  the interpreter and is taken as the parameter \<open>frepr\<close>.
\<close>

definition int_str :: "int \<Rightarrow> string" where
  "int_str i = (if i < 0 then ''-'' @ dec (nat (- i)) else dec (nat i))"

fun py_str :: "(pyfloat \<Rightarrow> string) \<Rightarrow> pyval \<Rightarrow> string" where
  "py_str frepr PNone = ''None''"
| "py_str frepr (PBool b) = (if b then ''True'' else ''False'')"
| "py_str frepr (PInt i) = int_str i"
| "py_str frepr (PFloat f) = frepr f"
| "py_str frepr (PStr s) = s"
| "py_str frepr (PTimestamp d) = replace_char (CHR ''T'') '' '' (isoformat d)"

section \<open>The sheet transformers\<close>

text \<open>
  A row of a data frame is a dictionary from column names to cell values;
  \<open>r.get(k)\<close> gives \<open>None\<close> for a missing column.  A canonical record is
  the dictionary built by the loop body, in the order of its keys.
\<close>

type_synonym row = "(string \<times> pyval) list"
type_synonym pydict = "(string \<times> pyval) list"

definition get :: "row \<Rightarrow> string \<Rightarrow> pyval" where
  "get r k = (case map_of r k of None \<Rightarrow> PNone | Some v \<Rightarrow> v)"

text \<open>
  Each loop body either skips the row (\<open>continue\<close>), raises, or appends one
  record.  \<open>transform\<close> is the loop: the first exception ends it.
\<close>

fun transform :: "(row \<Rightarrow> error + pydict option) \<Rightarrow> row list \<Rightarrow> error + pydict list" where
  "transform f [] = Inr []"
| "transform f (r # rs) =
     (case f r of
        Inl e \<Rightarrow> Inl e
      | Inr None \<Rightarrow> transform f rs
      | Inr (Some d) \<Rightarrow> (case transform f rs of Inl e \<Rightarrow> Inl e | Inr ds \<Rightarrow> Inr (d # ds)))"

definition ledger_amount :: "row \<Rightarrow> error + pyval" where
  "ledger_amount r =
     (if clean (get r ''Amount'') \<noteq> PNone
      then (case py_float (get r ''Amount'') of Inl e \<Rightarrow> Inl e | Inr f \<Rightarrow> Inr (PFloat f))
      else Inr PNone)"

definition ledger_row :: "pyval \<Rightarrow> row \<Rightarrow> error + pydict option" where
  "ledger_row user_id r =
     (let ts = clean (get r ''Timestamp'') in
      if \<not> truthy ts then Inr None
      else
        (let raw_text = py_or (clean (get r ''RawText'')) (PStr [])  in
         case call_build_idem raw_text ts of
           Inl e \<Rightarrow> Inl e
         | Inr idem \<Rightarrow>
             (case ledger_amount r of
                Inl e \<Rightarrow> Inl e
              | Inr amount \<Rightarrow>
                  Inr (Some
                    [(''user_id'', user_id),
                     (''txn_timestamp'', ts),
                     (''amount'', amount),
                     (''currency'', py_or (clean (get r ''Currency'')) (PStr ''QAR'')),
                     (''counterparty'', clean (get r ''Counterparty'')),
                     (''card'', clean (get r ''Card'')),
                     (''direction'', clean (get r ''Direction'')),
                     (''txn_type'', clean (get r ''TxnType'')),
                     (''raw_text'', raw_text),
                     (''net'', clean (get r ''NET'')),
                     (''idempotency_key'', PStr idem),
                     (''source'', PStr ''import'')]))))"

definition merchant_row :: "(pyfloat \<Rightarrow> string) \<Rightarrow> pyval \<Rightarrow> row \<Rightarrow> error + pydict option" where
  "merchant_row frepr user_id r =
     (let pattern = clean (get r ''Pattern'') in
      if \<not> truthy pattern then Inr None
      else Inr (Some
        [(''user_id'', user_id),
         (''pattern'', PStr (lower (py_str frepr pattern))),
         (''display_name'', clean (get r ''Display Name'')),
         (''consolidated_name'', clean (get r ''Consolidated Name'')),
         (''category'', clean (get r ''Category''))]))"

definition fx_row :: "pyval \<Rightarrow> row \<Rightarrow> error + pydict option" where
  "fx_row user_id r =
     (let currency = clean (get r ''Currency'') in
      if \<not> truthy currency then Inr None
      else Inr (Some
        [(''user_id'', user_id),
         (''currency'', currency),
         (''rate_to_qar'', clean (get r ''RateToQAR'')),
         (''formula'', clean (get r ''Formula''))]))"

definition context_row :: "pyval \<Rightarrow> row \<Rightarrow> error + pydict option" where
  "context_row user_id r =
     (let type_val = clean (get r ''Type'') in
      if \<not> truthy type_val then Inr None
      else Inr (Some
        [(''user_id'', user_id),
         (''type'', type_val),
         (''key'', clean (get r ''Key'')),
         (''value'', clean (get r ''Value'')),
         (''details'', clean (get r ''Details'')),
         (''date_added'', clean (get r ''DateAdded'')),
         (''source'', clean (get r ''Source''))]))"

definition recipient_row :: "(pyfloat \<Rightarrow> string) \<Rightarrow> pyval \<Rightarrow> row \<Rightarrow> error + pydict option" where
  "recipient_row frepr user_id r =
     (let phone = clean (get r ''Phone'');
          bank = clean (get r ''BankAccount'');
          short = clean (get r ''ShortName'');
          long = clean (get r ''LongName'')
      in if \<not> truthy (py_or (py_or (py_or phone bank) short) long) then Inr None
         else Inr (Some
           [(''user_id'', user_id),
            (''phone'', if phone \<noteq> PNone then PStr (py_str frepr phone) else PNone),
            (''bank_account'', bank),
            (''short_name'', short),
            (''long_name'', long)]))"

definition insight_row :: "pyval \<Rightarrow> row \<Rightarrow> error + pydict option" where
  "insight_row user_id r =
     (let date = clean (get r ''Date'');
          insights = clean (get r ''Insights'')
      in if \<not> truthy date \<or> \<not> truthy insights then Inr None
         else Inr (Some
           [(''user_id'', user_id),
            (''date'', date),
            (''insights'', insights)]))"

section \<open>The network and the batch upsert client\<close>

text \<open>
  A request is what the script hands to \<open>urlopen\<close>.  The body of a POST is
  the JSON text of a chunk; the chunk itself stands for it.  The query of the
  lookup is kept as the parameter list given to \<open>urlencode\<close>.
\<close>

record request =
  meth :: string
  url :: string
  query :: "(string \<times> string) list"
  headers :: "(string \<times> string) list"
  body :: "pydict list option"

text \<open>
  The answer of the network: \<open>Failed\<close> is any exception of \<open>urlopen\<close> or
  of reading the response.  Of the body of an answer only what the lookup
  reads is kept.  \<open>Users ids\<close> is a body whose \<open>users\<close> list has entries
  with the \<open>id\<close> values \<open>ids\<close>, as decoded by \<open>json.loads\<close>: a string, a
  number, a boolean or \<open>null\<close>, which is \<open>None\<close>; a body without \<open>users\<close>
  has the empty list.  Nothing checks that an \<open>id\<close> is a string.  An \<open>id\<close>
  that is itself an array or an object has no counterpart among the values of
  a cell and is not represented.  \<open>Malformed err\<close> is a body on which
  \<open>json.loads\<close>, \<open>data.get\<close> or \<open>users[0]['id']\<close> raises \<open>err\<close>.
\<close>

datatype content = Malformed error | Users "pyval list"

datatype reply = Failed | Reply nat content

text \<open>
  What the run does not control: the interpreter's \<open>repr\<close> of floats, the
  network, whose answer may depend on the requests made before, and the
  run-time classes of the values pandas hands over.  \<open>json.dumps\<close> encodes an
  \<open>int\<close> or a \<open>bool\<close> and raises \<open>TypeError\<close> on a \<open>numpy.int64\<close> or a
  \<open>numpy.bool_\<close>, which \<open>pyval\<close> does not tell apart: \<open>dumps_refuses\<close>
  says for which chunks it raises for such a reason.
\<close>

record platform =
  float_repr :: "pyfloat \<Rightarrow> string"
  urlopen :: "request list \<Rightarrow> request \<Rightarrow> reply"
  dumps_refuses :: "pydict list \<Rightarrow> bool"

text \<open>The environment variables read at the top of the module.\<close>

record env =
  SUPABASE_URL :: "string option"
  SERVICE_KEY :: "string option"
  USER_EMAIL :: "string option"

definition unset :: "string option \<Rightarrow> bool" where
  "unset v = (v = None \<or> v = Some [])"

definition std_headers :: "env \<Rightarrow> (string \<times> string) list" where
  "std_headers e =
     [(''Authorization'', ''Bearer '' @ the (SERVICE_KEY e)),
      (''apikey'', the (SERVICE_KEY e)),
      (''Content-Type'', ''application/json'')]"

text \<open>
  Operations on the network return their result together with the list of
  requests made so far.
\<close>

type_synonym 'a io = "(error + 'a) \<times> request list"

text \<open>
  \<^verbatim>\<open>
  def http_request(method, url, params=None, body=None):
      ...
      try:
          with request.urlopen(req) as resp:
              content = resp.read().decode('utf-8')
              return resp.status, content
      except Exception as e:
          raise RuntimeError(f"HTTP {method} failed: {e}")
  \<close>
  The text of the caught exception is left out of the message.
\<close>

definition http_request ::
    "platform \<Rightarrow> env \<Rightarrow> string \<Rightarrow> string \<Rightarrow> (string \<times> string) list \<Rightarrow> request list
      \<Rightarrow> (nat \<times> content) io" where
  "http_request pf e m u params sent =
     (let req = \<lparr>meth = m, url = u, query = params, headers = std_headers e, body = None\<rparr>
      in (case urlopen pf sent req of
            Failed \<Rightarrow> (Inl (RuntimeError (''HTTP '' @ m @ '' failed'')), sent @ [req])
          | Reply status c \<Rightarrow> (Inr (status, c), sent @ [req])))"

text \<open>
  \<^verbatim>\<open>
  def get_user_id(email: str) -> str:
      status, content = http_request('GET', f"{SUPABASE_URL}/auth/v1/admin/users",
                                     params={'email': email})
      if status >= 300:
          raise RuntimeError(f'User lookup failed: {status} {content}')
      data = json.loads(content)
      users = data.get('users', [])
      if not users:
          raise RuntimeError(f'No user found for {email}')
      return users[0]['id']
  \<close>
\<close>

definition get_user_id :: "platform \<Rightarrow> env \<Rightarrow> string \<Rightarrow> request list \<Rightarrow> pyval io" where
  "get_user_id pf e email sent =
     (case http_request pf e ''GET'' (the (SUPABASE_URL e) @ ''/auth/v1/admin/users'')
             [(''email'', email)] sent of
        (Inl err, sent') \<Rightarrow> (Inl err, sent')
      | (Inr (status, c), sent') \<Rightarrow>
          if 300 \<le> status then (Inl (RuntimeError ''User lookup failed''), sent')
          else (case c of
                  Malformed err \<Rightarrow> (Inl err, sent')
                | Users [] \<Rightarrow> (Inl (RuntimeError (''No user found for '' @ email)), sent')
                | Users (u # us) \<Rightarrow> (Inr u, sent')))"

text \<open>
  \<^verbatim>\<open>
  def post_rows(table, rows, on_conflict=None):
      if not rows:
          return
      url = f"{SUPABASE_URL}/rest/v1/{table}"
      if on_conflict:
          url += f"?on_conflict={on_conflict}"
      for i in range(0, len(rows), 200):
          chunk = rows[i:i+200]
          req = request.Request(url, data=json.dumps(chunk).encode('utf-8'), method='POST')
          for k, v in headers.items():
              req.add_header(k, v)
          req.add_header('Prefer', 'resolution=merge-duplicates')
          try:
              with request.urlopen(req) as resp:
                  _ = resp.read()
          except Exception as e:
              raise RuntimeError(f"Insert failed for {table}: {e}")
  \<close>
\<close>

definition post_url :: "env \<Rightarrow> string \<Rightarrow> string option \<Rightarrow> string" where
  "post_url e table on_conflict =
     the (SUPABASE_URL e) @ ''/rest/v1/'' @ table
     @ (if unset on_conflict then [] else ''?on_conflict='' @ the on_conflict)"

definition post_request :: "env \<Rightarrow> string \<Rightarrow> pydict list \<Rightarrow> request" where
  "post_request e u chunk =
     \<lparr>meth = ''POST'', url = u, query = [],
      headers = std_headers e @ [(''Prefer'', ''resolution=merge-duplicates'')],
      body = Some chunk\<rparr>"

text \<open>
  \<open>json.dumps(chunk)\<close> is evaluated before the \<open>try\<close>: its \<open>TypeError\<close> is
  not turned into a \<open>RuntimeError\<close> and no request is made for the chunk.
  It raises on a \<open>pd.Timestamp\<close>, and where the platform says so.
\<close>

fun is_timestamp :: "pyval \<Rightarrow> bool" where
  "is_timestamp (PTimestamp d) = True"
| "is_timestamp v = False"

definition encodable :: "platform \<Rightarrow> pydict list \<Rightarrow> bool" where
  "encodable pf chunk =
     (\<not> dumps_refuses pf chunk \<and> list_all (list_all (\<lambda>kv. \<not> is_timestamp (snd kv))) chunk)"

text \<open>The loop over \<open>range(0, len(rows), 200)\<close>, from index \<open>i\<close> on.\<close>

function post_chunks ::
    "platform \<Rightarrow> env \<Rightarrow> string \<Rightarrow> string \<Rightarrow> pydict list \<Rightarrow> nat \<Rightarrow> request list \<Rightarrow> unit io" where
  "post_chunks pf e table u rows i sent =
     (if i < length rows then
        (if encodable pf (take 200 (drop i rows)) then
           (case urlopen pf sent (post_request e u (take 200 (drop i rows))) of
              Failed \<Rightarrow>
                (Inl (RuntimeError (''Insert failed for '' @ table)),
                 sent @ [post_request e u (take 200 (drop i rows))])
            | Reply status c \<Rightarrow>
                post_chunks pf e table u rows (i + 200)
                  (sent @ [post_request e u (take 200 (drop i rows))]))
         else (Inl TypeError, sent))
      else (Inr (), sent))"
  by pat_completeness auto
termination
  by (relation "measure (\<lambda>(pf, e, table, u, rows, i, sent). length rows - i)") auto

declare post_chunks.simps [simp del]

definition post_rows ::
    "platform \<Rightarrow> env \<Rightarrow> string \<Rightarrow> pydict list \<Rightarrow> string option \<Rightarrow> request list \<Rightarrow> unit io" where
  "post_rows pf e table rows on_conflict sent =
     (if rows = [] then (Inr (), sent)
      else post_chunks pf e table (post_url e table on_conflict) rows 0 sent)"

section \<open>The run of the module\<close>

text \<open>
  A workbook gives the rows of each sheet it has.  The six blocks of the
  module have the same shape: if the sheet is present, transform its rows and
  post them.  An exception anywhere is not caught: it ends the run.
\<close>

type_synonym workbook = "(string \<times> row list) list"

definition import_sheet ::
    "platform \<Rightarrow> env \<Rightarrow> workbook \<Rightarrow> string \<Rightarrow> (row \<Rightarrow> error + pydict option) \<Rightarrow> string
      \<Rightarrow> string option \<Rightarrow> request list \<Rightarrow> unit io" where
  "import_sheet pf e xl sheet f table on_conflict sent =
     (case map_of xl sheet of
        None \<Rightarrow> (Inr (), sent)
      | Some df \<Rightarrow>
          (case transform f df of
             Inl err \<Rightarrow> (Inl err, sent)
           | Inr rows \<Rightarrow> post_rows pf e table rows on_conflict sent))"

text \<open>The six blocks, in the order of the module.\<close>

definition sheet_blocks ::
    "platform \<Rightarrow> env \<Rightarrow> workbook \<Rightarrow> pyval \<Rightarrow> (request list \<Rightarrow> unit io) list" where
  "sheet_blocks pf e xl user_id =
     [import_sheet pf e xl ''RawLedger'' (ledger_row user_id) ''raw_ledger''
        (Some ''user_id,idempotency_key''),
      import_sheet pf e xl ''MerchantMap'' (merchant_row (float_repr pf) user_id) ''merchant_map''
        (Some ''user_id,pattern''),
      import_sheet pf e xl ''FXRates'' (fx_row user_id) ''fx_rates'' (Some ''user_id,currency''),
      import_sheet pf e xl ''UserContext'' (context_row user_id) ''user_context'' None,
      import_sheet pf e xl ''Recipients'' (recipient_row (float_repr pf) user_id) ''recipients'' None,
      import_sheet pf e xl ''Insights'' (insight_row user_id) ''insights'' None]"

text \<open>Statements in sequence: the first that raises ends the sequence.\<close>

fun in_sequence :: "(request list \<Rightarrow> unit io) list \<Rightarrow> request list \<Rightarrow> unit io" where
  "in_sequence [] sent = (Inr (), sent)"
| "in_sequence (b # bs) sent =
     (case b sent of
        (Inl err, sent') \<Rightarrow> (Inl err, sent')
      | (Inr u, sent') \<Rightarrow> in_sequence bs sent')"

definition run :: "platform \<Rightarrow> env \<Rightarrow> workbook \<Rightarrow> unit io" where
  "run pf e xl =
     (if unset (SUPABASE_URL e) \<or> unset (SERVICE_KEY e) \<or> unset (USER_EMAIL e)
      then (Inl (SystemExit ''Missing SUPABASE_URL, SUPABASE_SERVICE_ROLE_KEY, or FLOW_USER_EMAIL''), [])
      else (case get_user_id pf e (the (USER_EMAIL e)) [] of
              (Inl err, sent) \<Rightarrow> (Inl err, sent)
            | (Inr user_id, sent) \<Rightarrow> in_sequence (sheet_blocks pf e xl user_id) sent))"

text \<open>
  The first sixteen characters of an ISO rendering: date, \<open>T\<close>, hour and
  minute, each padded to its width.
\<close>

definition minute_text :: "datetime \<Rightarrow> string" where
  "minute_text d = fmt 4 (year d) @ ''-'' @ fmt 2 (month d) @ ''-'' @ fmt 2 (day d) @ ''T''
       @ fmt 2 (hour d) @ '':'' @ fmt 2 (minute d)"

section \<open>Example inputs\<close>

text \<open>
  A rendering of floats for the examples below; none of them renders a float.
\<close>

definition example_repr :: "pyfloat \<Rightarrow> string" where
  "example_repr f = ''0.0''"

text \<open>A complete configuration.\<close>

definition example_env :: env where
  "example_env =
     \<lparr>SUPABASE_URL = Some ''https://db.example'', SERVICE_KEY = Some ''key'',
      USER_EMAIL = Some ''a@b.c''\<rparr>"

text \<open>
  Three platforms, on which every \<open>int\<close> and \<open>bool\<close> is Python's own.  The
  first two answer the lookup with one user \<open>u1\<close>; the first accepts every
  submission, the second refuses every submission.  The third accepts every
  submission and answers the lookup with a user whose \<open>id\<close> is \<open>null\<close>.
\<close>

definition accepting :: platform where
  "accepting =
     \<lparr>float_repr = example_repr,
      urlopen = (\<lambda>sent q. if meth q = ''GET'' then Reply 200 (Users [PStr ''u1''])
                          else Reply 201 (Malformed ValueError)),
      dumps_refuses = (\<lambda>chunk. False)\<rparr>"

definition refusing :: platform where
  "refusing =
     \<lparr>float_repr = example_repr,
      urlopen = (\<lambda>sent q. if meth q = ''GET'' then Reply 200 (Users [PStr ''u1'']) else Failed),
      dumps_refuses = (\<lambda>chunk. False)\<rparr>"

definition nameless :: platform where
  "nameless =
     \<lparr>float_repr = example_repr,
      urlopen = (\<lambda>sent q. if meth q = ''GET'' then Reply 200 (Users [PNone])
                          else Reply 201 (Malformed ValueError)),
      dumps_refuses = (\<lambda>chunk. False)\<rparr>"

section \<open>Notions used in the statements\<close>

text \<open>
  \<open>answered pf sent qs\<close>: the requests \<open>qs\<close>, made one after the other once
  \<open>sent\<close> had been made, were all answered.
\<close>

fun answered :: "platform \<Rightarrow> request list \<Rightarrow> request list \<Rightarrow> bool" where
  "answered pf sent [] = True"
| "answered pf sent (q # qs) = (urlopen pf sent q \<noteq> Failed \<and> answered pf (sent @ [q]) qs)"

text \<open>
  \<open>stopped pf sent qs\<close>: of the requests \<open>qs\<close> made after \<open>sent\<close>, the last
  one failed and those before it were answered.
\<close>

definition stopped :: "platform \<Rightarrow> request list \<Rightarrow> request list \<Rightarrow> bool" where
  "stopped pf sent qs =
     (qs \<noteq> [] \<and> answered pf sent (butlast qs) \<and> urlopen pf (sent @ butlast qs) (last qs) = Failed)"

text \<open>
  \<open>orderly pf sent out\<close>: the operation that returned \<open>out\<close> after \<open>sent\<close> only
  added requests, and either all of them were answered, or the operation
  raised and the request that failed is the last one made.
\<close>

definition orderly :: "platform \<Rightarrow> request list \<Rightarrow> 'a io \<Rightarrow> bool" where
  "orderly pf sent out =
     (take (length sent) (snd out) = sent \<and>
      (answered pf sent (drop (length sent) (snd out)) \<or>
       (isl (fst out) \<and> stopped pf sent (drop (length sent) (snd out)))))"

text \<open>\<open>owned uid q\<close>: every record in the body of \<open>q\<close> has the owner \<open>uid\<close>.\<close>

definition owned :: "pyval \<Rightarrow> request \<Rightarrow> bool" where
  "owned uid q =
     (case body q of
        None \<Rightarrow> True
      | Some chunk \<Rightarrow> list_all (\<lambda>d. map_of d ''user_id'' = Some uid) chunk)"

text \<open>
  A workbook with one merchant pattern and one exchange rate, and the two
  requests its import starts with.
\<close>

definition example_book :: workbook where
  "example_book =
     [(''MerchantMap'', [[(''Pattern'', PStr ''Shop'')]]),
      (''FXRates'', [[(''Currency'', PStr ''USD'')]])]"

definition lookup_request :: request where
  "lookup_request =
     \<lparr>meth = ''GET'', url = ''https://db.example/auth/v1/admin/users'',
      query = [(''email'', ''a@b.c'')], headers = std_headers example_env, body = None\<rparr>"

definition merchant_request :: request where
  "merchant_request =
     \<lparr>meth = ''POST'', url = ''https://db.example/rest/v1/merchant_map?on_conflict=user_id,pattern'',
      query = [],
      headers = std_headers example_env @ [(''Prefer'', ''resolution=merge-duplicates'')],
      body = Some [[(''user_id'', PStr ''u1''), (''pattern'', PStr ''shop''),
                    (''display_name'', PNone), (''consolidated_name'', PNone),
                    (''category'', PNone)]]\<rparr>"

text \<open>
  The instant a timestamp denotes.  Days are counted as \<open>date.toordinal\<close>
  counts them; a value with the offset \<open>off\<close> denotes the instant \<open>off\<close> before
  its wall clock reading, and a value without offset denotes no instant.
  \<open>utc_minute_of\<close> reads the string the way \<open>normalize_minute\<close> does.
\<close>

definition days_before_year :: "nat \<Rightarrow> nat" where
  "days_before_year y = (y - 1) * 365 + (y - 1) div 4 - (y - 1) div 100 + (y - 1) div 400"

definition days_before_month :: "nat \<Rightarrow> nat \<Rightarrow> nat" where
  "days_before_month y m = sum_list (map (days_in_month y) [1..<m])"

definition toordinal :: "datetime \<Rightarrow> nat" where
  "toordinal d = days_before_year (year d) + days_before_month (year d) (month d) + day d"

definition wall_microsecond :: "datetime \<Rightarrow> int" where
  "wall_microsecond d =
     int ((((toordinal d * 24 + hour d) * 60 + minute d) * 60 + second d) * 1000000 + microsecond d)"

definition utc_minute :: "datetime \<Rightarrow> int option" where
  "utc_minute d =
     (case tzinfo d of
        None \<Rightarrow> None
      | Some off \<Rightarrow> Some ((wall_microsecond d - off) div 60000000))"

definition utc_minute_of :: "string \<Rightarrow> int option" where
  "utc_minute_of ts =
     (case fromisoformat (replace_char (CHR ''Z'') ''+00:00'' ts) of
        Inl e \<Rightarrow> None
      | Inr d \<Rightarrow> utc_minute d)"

section \<open>Properties\<close>

text \<open>
  C4 (as the code has it).  \<open>clean\<close> sends \<open>None\<close> and a float NaN to
  \<open>None\<close>, a timestamp cell to its ISO-8601 rendering, and gives back every
  other value as it is.  The empty string is one of these other values: it is
  returned unchanged and not turned into \<open>None\<close>.  \<open>clean\<close> is a total
  function without an error branch.
\<close>

theorem clean_spec:
  "clean PNone = PNone \<and> clean (PFloat FNaN) = PNone \<and>
   clean (PTimestamp d) = PStr (isoformat d) \<and>
   (v \<noteq> PNone \<and> v \<noteq> PFloat FNaN \<and> (\<forall>d'. v \<noteq> PTimestamp d') \<longrightarrow> clean v = v)"
  by (cases v) auto

theorem clean_spec_witness:
  "PStr ''QAR'' \<noteq> PNone \<and> PStr ''QAR'' \<noteq> PFloat FNaN \<and> (\<forall>d'. PStr ''QAR'' \<noteq> PTimestamp d') \<and>
   clean (PStr ''QAR'') = PStr ''QAR''"
  using clean_spec [of undefined "PStr ''QAR''"] by simp

text \<open>
  C4 as stated asks that the empty string be mapped to the no-value marker.
  The code returns it unchanged.
\<close>

theorem clean_empty_string_counterexample:
  "clean (PStr '''') \<noteq> PNone"
  by simp

subsection \<open>Evaluation of timestamps and texts\<close>

lemmas timestamp_eval =
  normalize_minute_def fromisoformat_def parse_isoformat_date_def parse_isoformat_time_def
  parse_offset_def parse_hh_mm_ss_ff_def parse_fraction_def two_digits_def parse_digits_def
  digits_val_def is_digit_def is_sign_def mk_datetime_def valid_datetime_def days_in_month_def
  is_leap_def replace_char_def isoformat_def fmt_def zfill_def dec.simps digit_char_def
  format_offset_def Let_def

lemmas content_eval = content_of_def join_split_def lower_def lower_char_def is_space_def Let_def
  char_of_eq_iff

lemma length_fmt: "w \<le> length (fmt w n)"
  by (simp add: fmt_def zfill_def)

lemma take_prefix: "n \<le> length a \<Longrightarrow> take n (a @ b) = take n a"
  by simp

lemma length_minute_text: "16 \<le> length (minute_text d)"
  using length_fmt [of 4 "year d"] length_fmt [of 2 "month d"] length_fmt [of 2 "day d"]
    length_fmt [of 2 "hour d"] length_fmt [of 2 "minute d"]
  by (simp add: minute_text_def)

lemma isoformat_split:
  "isoformat d = minute_text d @ ('':'' @ fmt 2 (second d)
     @ (if microsecond d \<noteq> 0 then ''.'' @ fmt 6 (microsecond d) else [])
     @ (case tzinfo d of None \<Rightarrow> [] | Some off \<Rightarrow> format_offset off))"
  by (simp add: isoformat_def minute_text_def)

lemma minute_prefix: "take 16 (isoformat d) = take 16 (minute_text d)"
  unfolding isoformat_split by (rule take_prefix [OF length_minute_text])

subsection \<open>The key of the scenario\<close>

text \<open>
  C5.  The text \<open>"  Hello WORLD  "\<close> with the timestamp
  \<open>2024-03-01T10:07:42Z\<close> and the text \<open>"helloworld"\<close> with the timestamp
  \<open>2024-03-01T10:07:59+00:00\<close> get the same key, which is the digest of
  \<open>helloworld|2024-03-01T10:07\<close>: both timestamps normalize to the minute
  \<open>2024-03-01T10:07\<close>, the \<open>Z\<close> being rewritten to \<open>+00:00\<close> before
  parsing, and both texts clean to \<open>helloworld\<close>.
\<close>

theorem idem_scenario_hello_world:
  "build_idem ''  Hello WORLD  '' ''2024-03-01T10:07:42Z'' =
     build_idem ''helloworld'' ''2024-03-01T10:07:59+00:00'' \<and>
   build_idem ''helloworld'' ''2024-03-01T10:07:59+00:00'' =
     Inr (sha256 (utf8 ''helloworld|2024-03-01T10:07'')) \<and>
   normalize_minute ''2024-03-01T10:07:42Z'' = Inr ''2024-03-01T10:07'' \<and>
   normalize_minute ''2024-03-01T10:07:59+00:00'' = Inr ''2024-03-01T10:07'' \<and>
   replace_char (CHR ''Z'') ''+00:00'' ''2024-03-01T10:07:42Z'' = ''2024-03-01T10:07:42+00:00'' \<and>
   content_of ''  Hello WORLD  '' = ''helloworld'' \<and>
   content_of ''helloworld'' = ''helloworld''"
proof -
  have n1: "normalize_minute ''2024-03-01T10:07:42Z'' = Inr ''2024-03-01T10:07''"
    by (simp add: timestamp_eval)
  have n2: "normalize_minute ''2024-03-01T10:07:59+00:00'' = Inr ''2024-03-01T10:07''"
    by (simp add: timestamp_eval)
  have c1: "content_of ''  Hello WORLD  '' = ''helloworld''"
    by (simp add: content_eval)
  have c2: "content_of ''helloworld'' = ''helloworld''"
    by (simp add: content_eval)
  have r: "replace_char (CHR ''Z'') ''+00:00'' ''2024-03-01T10:07:42Z'' = ''2024-03-01T10:07:42+00:00''"
    by (simp add: replace_char_def)
  show ?thesis
    by (simp add: build_idem_def idem_base_def n1 n2 c1 c2 r)
qed

subsection \<open>Truncation of the text\<close>

text \<open>
  C7.  Two texts that agree on the first 100 characters left after removing
  whitespace and lower-casing get the same key for any timestamp: what lies
  beyond the prefix does not reach the digest.
\<close>

theorem idem_truncation_collision:
  assumes "take 100 (lower (join_split s1)) = take 100 (lower (join_split s2))"
  shows "build_idem s1 t = build_idem s2 t"
proof -
  from assms have "content_of s1 = content_of s2"
    by (simp add: content_of_def)
  then show ?thesis
    by (cases "normalize_minute t") (simp_all add: build_idem_def idem_base_def)
qed

theorem idem_truncation_collision_witness:
  "replicate 100 (CHR ''A'') @ '' x'' \<noteq> replicate 100 (CHR ''a'') @ ''y'' \<and>
   take 100 (lower (join_split (replicate 100 (CHR ''A'') @ '' x''))) =
     take 100 (lower (join_split (replicate 100 (CHR ''a'') @ ''y''))) \<and>
   build_idem (replicate 100 (CHR ''A'') @ '' x'') ''2024-03-01T10:07:42Z'' =
     build_idem (replicate 100 (CHR ''a'') @ ''y'') ''2024-03-01T10:07:42Z''"
proof -
  have h: "take 100 (lower (join_split (replicate 100 (CHR ''A'') @ '' x''))) =
     take 100 (lower (join_split (replicate 100 (CHR ''a'') @ ''y'')))"
    by (simp add: content_eval)
  have ne: "replicate 100 (CHR ''A'') @ '' x'' \<noteq> replicate 100 (CHR ''a'') @ ''y''"
    by simp
  from idem_truncation_collision [OF h] h ne show ?thesis by blast
qed

subsection \<open>Rows of the \<open>Recipients\<close> sheet\<close>

lemma isoformat_nonempty: "isoformat d \<noteq> []"
  using length_minute_text [of d] by (auto simp: isoformat_split)

lemma falsy_clean_iff:
  "\<not> truthy (clean v) \<longleftrightarrow>
     v \<in> {PNone, PFloat FNaN, PStr [], PInt 0, PFloat (FNum 0), PBool False}"
  by (cases v) (simp_all add: isoformat_nonempty)

lemma truthy_py_or: "truthy (py_or a b) \<longleftrightarrow> truthy a \<or> truthy b"
  by (simp add: py_or_def)

lemma recipient_dropped_iff:
  "recipient_row frepr uid r = Inr None \<longleftrightarrow>
     \<not> truthy (clean (get r ''Phone'')) \<and> \<not> truthy (clean (get r ''BankAccount'')) \<and>
     \<not> truthy (clean (get r ''ShortName'')) \<and> \<not> truthy (clean (get r ''LongName''))"
  by (simp add: recipient_row_def Let_def truthy_py_or)

lemma recipient_phone:
  "recipient_row frepr uid r = Inr (Some d) \<Longrightarrow>
     map_of d ''phone'' =
        Some (if clean (get r ''Phone'') = PNone then PNone
              else PStr (py_str frepr (clean (get r ''Phone''))))"
  by (auto simp: recipient_row_def Let_def split: if_splits)

lemma recipient_total: "recipient_row frepr uid r \<noteq> Inl err"
  by (simp add: recipient_row_def Let_def)

lemmas row_eval = get_def py_or_def Let_def

text \<open>
  C8 (as the code has it).  The row is dropped exactly when each of the four
  cells \<open>Phone\<close>, \<open>BankAccount\<close>, \<open>ShortName\<close> and \<open>LongName\<close> is missing,
  NaN, the empty string, a numeric zero or \<open>False\<close>: the test of the loop is
  Python truthiness of the cleaned cells.  A kept row carries \<open>str(phone)\<close>
  when the cleaned phone is not \<open>None\<close>, and \<open>None\<close> otherwise.  The
  transformer never raises.
\<close>

theorem recipient_keep_rule:
  "(recipient_row frepr uid r = Inr None \<longleftrightarrow>
      (\<forall>k \<in> set [''Phone'', ''BankAccount'', ''ShortName'', ''LongName''].
         get r k \<in> {PNone, PFloat FNaN, PStr [], PInt 0, PFloat (FNum 0), PBool False})) \<and>
   (\<forall>d. recipient_row frepr uid r = Inr (Some d) \<longrightarrow>
      map_of d ''phone'' =
        Some (if clean (get r ''Phone'') = PNone then PNone
              else PStr (py_str frepr (clean (get r ''Phone''))))) \<and>
   (\<forall>err. recipient_row frepr uid r \<noteq> Inl err)"
proof -
  have "(\<forall>k \<in> set [''Phone'', ''BankAccount'', ''ShortName'', ''LongName''].
         get r k \<in> {PNone, PFloat FNaN, PStr [], PInt 0, PFloat (FNum 0), PBool False}) \<longleftrightarrow>
     recipient_row frepr uid r = Inr None"
    unfolding falsy_clean_iff [symmetric] recipient_dropped_iff by simp
  then show ?thesis
    using recipient_phone [of frepr uid r] recipient_total [of frepr uid r] by blast
qed

text \<open>A row with only a phone number is kept, and the number becomes a string.\<close>

theorem recipient_keep_rule_witness:
  "recipient_row example_repr (PStr ''u1'') [(''Phone'', PInt 97455512345)] \<noteq> Inr None \<and>
   recipient_row example_repr (PStr ''u1'') [(''Phone'', PInt 97455512345)] =
     Inr (Some [(''user_id'', PStr ''u1''), (''phone'', PStr ''97455512345''),
       (''bank_account'', PNone), (''short_name'', PNone), (''long_name'', PNone)]) \<and>
   map_of [(''user_id'', PStr ''u1''), (''phone'', PStr ''97455512345''),
       (''bank_account'', PNone), (''short_name'', PNone), (''long_name'', PNone)] ''phone'' =
     Some (PStr (py_str example_repr (clean (get [(''Phone'', PInt 97455512345)] ''Phone''))))"
  using recipient_keep_rule [of example_repr "PStr ''u1''" "[(''Phone'', PInt 97455512345)]"]
  by (simp add: recipient_row_def row_eval int_str_def dec.simps digit_char_def)

text \<open>
  C8 as stated takes a row to be dropped only when all four fields are empty.
  A row whose only filled cell is the number \<open>0\<close> in \<open>Phone\<close> is dropped as
  well.
\<close>

theorem recipient_zero_phone_counterexample:
  "get [(''Phone'', PInt 0)] ''Phone'' = PInt 0 \<and>
   recipient_row example_repr (PStr ''u1'') [(''Phone'', PInt 0)] = Inr None"
  by (simp add: recipient_row_def row_eval)

subsection \<open>The chunks sent by \<open>post_rows\<close>\<close>

lemma chunk_count_step:
  fixes i n :: nat
  assumes "i < n"
  shows "(n - i + 199) div 200 = Suc ((n - (i + 200) + 199) div 200)"
proof (cases "i + 200 \<le> n")
  case True
  define a where "a = n - (i + 200) + 199"
  from True have "n - i + 199 = a + 200"
    unfolding a_def by linarith
  then show ?thesis
    unfolding a_def [symmetric] by (simp only: div_add_self2)
next
  case False
  define b where "b = n - i + 199"
  from False assms have "200 \<le> b" "b < 400" "n - (i + 200) = 0"
    unfolding b_def by linarith+
  then have "b div 200 = 1"
    by (intro div_nat_eqI) simp_all
  with \<open>n - (i + 200) = 0\<close> show ?thesis
    unfolding b_def by simp
qed

lemma chunk_length:
  assumes "k < (length rows + 199) div 200"
  shows "length (take 200 (drop (200 * k) rows)) =
       (if Suc k < (length rows + 199) div 200 then 200 else length rows - 200 * k) \<and>
     0 < length (take 200 (drop (200 * k) rows))"
proof -
  define n where "n = length rows"
  define c where "c = (n + 199) div 200"
  have c: "200 * c \<le> n + 199" "n < 200 * c + 1"
    unfolding c_def by linarith+
  from assms have k: "k < c"
    unfolding c_def n_def .
  have "min (n - 200 * k) 200 = (if Suc k < c then 200 else n - 200 * k) \<and> 0 < min (n - 200 * k) 200"
    using c k by (auto simp: min_def)
  then show ?thesis
    unfolding c_def n_def by (simp add: min.commute)
qed

lemma post_chunks_sent:
  "list_all (encodable pf)
     (map (\<lambda>k. take 200 (drop (i + 200 * k) rows)) [0..<(length rows - i + 199) div 200]) \<Longrightarrow>
   answered pf sent
     (map (\<lambda>k. post_request e u (take 200 (drop (i + 200 * k) rows)))
        [0..<(length rows - i + 199) div 200]) \<Longrightarrow>
   post_chunks pf e table u rows i sent =
     (Inr (), sent @ map (\<lambda>k. post_request e u (take 200 (drop (i + 200 * k) rows)))
                      [0..<(length rows - i + 199) div 200])"
proof (induction "length rows - i" arbitrary: i sent rule: less_induct)
  case less
  show ?case
  proof (cases "i < length rows")
    case True
    let ?q = "post_request e u (take 200 (drop i rows))"
    note split = chunk_count_step [OF True] map_upt_Suc
    have lt: "length rows - (i + 200) < length rows - i"
      using True by simp
    from less.prems(1) [unfolded split]
    have enc: "encodable pf (take 200 (drop i rows))"
      and encs: "list_all (encodable pf)
        (map (\<lambda>k. take 200 (drop (i + 200 + 200 * k) rows))
           [0..<(length rows - (i + 200) + 199) div 200])"
      by (simp_all add: add.assoc)
    from less.prems(2) [unfolded split]
    have ans: "urlopen pf sent ?q \<noteq> Failed"
      and anss: "answered pf (sent @ [?q])
        (map (\<lambda>k. post_request e u (take 200 (drop (i + 200 + 200 * k) rows)))
           [0..<(length rows - (i + 200) + 199) div 200])"
      by (simp_all add: add.assoc)
    obtain st c where r: "urlopen pf sent ?q = Reply st c"
      using ans by (cases "urlopen pf sent ?q") auto
    have "post_chunks pf e table u rows i sent =
        post_chunks pf e table u rows (i + 200) (sent @ [?q])"
      by (subst post_chunks.simps) (simp add: True enc r)
    also have "\<dots> = (Inr (), (sent @ [?q]) @
        map (\<lambda>k. post_request e u (take 200 (drop (i + 200 + 200 * k) rows)))
          [0..<(length rows - (i + 200) + 199) div 200])"
      using lt encs anss by (rule less.hyps)
    finally show ?thesis
      by (simp only: split) (simp add: add.assoc)
  next
    case False
    then show ?thesis
      by (subst post_chunks.simps) simp
  qed
qed

lemma post_chunks_returned:
  "fst (post_chunks pf e table u rows i sent) = Inr () \<Longrightarrow>
   list_all (encodable pf)
     (map (\<lambda>k. take 200 (drop (i + 200 * k) rows)) [0..<(length rows - i + 199) div 200]) \<and>
   answered pf sent
     (map (\<lambda>k. post_request e u (take 200 (drop (i + 200 * k) rows)))
        [0..<(length rows - i + 199) div 200])"
proof (induction pf e table u rows i sent rule: post_chunks.induct)
  case (1 pf e table u rows i sent)
  let ?q = "post_request e u (take 200 (drop i rows))"
  show ?case
  proof (cases "i < length rows")
    case False
    then show ?thesis by simp
  next
    case True
    note split = chunk_count_step [OF True] map_upt_Suc
    from "1.prems" True have enc: "encodable pf (take 200 (drop i rows))"
      by (subst (asm) post_chunks.simps) (simp split: if_splits)
    show ?thesis
    proof (cases "urlopen pf sent ?q")
      case Failed
      with "1.prems" True enc show ?thesis
        by (subst (asm) post_chunks.simps) simp
    next
      case (Reply st c)
      from "1.prems" True enc Reply
      have "fst (post_chunks pf e table u rows (i + 200) (sent @ [?q])) = Inr ()"
        by (subst (asm) post_chunks.simps) simp
      with True enc Reply
      have "list_all (encodable pf)
          (map (\<lambda>k. take 200 (drop (i + 200 + 200 * k) rows))
             [0..<(length rows - (i + 200) + 199) div 200]) \<and>
        answered pf (sent @ [?q])
          (map (\<lambda>k. post_request e u (take 200 (drop (i + 200 + 200 * k) rows)))
             [0..<(length rows - (i + 200) + 199) div 200])"
        by (intro "1.IH")
      with enc Reply show ?thesis
        by (simp only: split) (simp add: add.assoc)
    qed
  qed
qed

lemma post_chunks_prefix:
  "\<exists>m \<le> (length rows - i + 199) div 200.
     snd (post_chunks pf e table u rows i sent) =
       sent @ map (\<lambda>k. post_request e u (take 200 (drop (i + 200 * k) rows))) [0..<m]"
proof (induction pf e table u rows i sent rule: post_chunks.induct)
  case (1 pf e table u rows i sent)
  let ?q = "post_request e u (take 200 (drop i rows))"
  let ?f = "\<lambda>k. post_request e u (take 200 (drop (i + 200 * k) rows))"
  show ?case
  proof (cases "i < length rows")
    case False
    then have "snd (post_chunks pf e table u rows i sent) = sent @ map ?f [0..<0]"
      by (subst post_chunks.simps) simp
    then show ?thesis by blast
  next
    case True
    note count = chunk_count_step [OF True]
    show ?thesis
    proof (cases "encodable pf (take 200 (drop i rows))")
      case False
      with True have "snd (post_chunks pf e table u rows i sent) = sent @ map ?f [0..<0]"
        by (subst post_chunks.simps) simp
      then show ?thesis by blast
    next
      case enc: True
      show ?thesis
      proof (cases "urlopen pf sent ?q")
        case Failed
        with True enc have "snd (post_chunks pf e table u rows i sent) = sent @ map ?f [0..<Suc 0]"
          by (subst post_chunks.simps) simp
        moreover have "Suc 0 \<le> (length rows - i + 199) div 200"
          unfolding count by simp
        ultimately show ?thesis by blast
      next
        case (Reply st c)
        from True enc Reply
        have "\<exists>m \<le> (length rows - (i + 200) + 199) div 200.
           snd (post_chunks pf e table u rows (i + 200) (sent @ [?q])) =
             (sent @ [?q]) @ map (\<lambda>k. post_request e u (take 200 (drop (i + 200 + 200 * k) rows))) [0..<m]"
          by (rule "1.IH")
        then obtain m where m: "m \<le> (length rows - (i + 200) + 199) div 200"
          and l: "snd (post_chunks pf e table u rows (i + 200) (sent @ [?q])) =
             (sent @ [?q]) @ map (\<lambda>k. post_request e u (take 200 (drop (i + 200 + 200 * k) rows))) [0..<m]"
          by blast
        have "snd (post_chunks pf e table u rows i sent) =
            snd (post_chunks pf e table u rows (i + 200) (sent @ [?q]))"
          using True enc Reply by (subst post_chunks.simps) simp
        also have "\<dots> = sent @ map ?f [0..<Suc m]"
          unfolding l by (simp only: map_upt_Suc) (simp add: add.assoc)
        finally have "snd (post_chunks pf e table u rows i sent) = sent @ map ?f [0..<Suc m]" .
        moreover from m have "Suc m \<le> (length rows - i + 199) div 200"
          unfolding count by simp
        ultimately show ?thesis by blast
      qed
    qed
  qed
qed

lemma chunks_concat:
  "concat (map (\<lambda>k. take 200 (drop (i + 200 * k) rows)) [0..<(length rows - i + 199) div 200])
     = drop i rows"
proof (induction "length rows - i" arbitrary: i rule: less_induct)
  case less
  show ?case
  proof (cases "i < length rows")
    case True
    have "concat (map (\<lambda>k. take 200 (drop (i + 200 + 200 * k) rows))
            [0..<(length rows - (i + 200) + 199) div 200]) = drop (i + 200) rows"
      using True by (intro less) simp
    moreover have "take 200 (drop i rows) @ drop (i + 200) rows = drop i rows"
      using append_take_drop_id [of 200 "drop i rows"] by (simp add: add.commute)
    ultimately show ?thesis
      by (simp only: chunk_count_step [OF True] map_upt_Suc) (simp add: add.assoc)
  next
    case False
    then show ?thesis by simp
  qed
qed

text \<open>
  C6.  With no records \<open>post_rows\<close> returns at once and makes no request.
  With \<open>n\<close> records the chunks are the records from position \<open>200 * k\<close> on,
  at most 200 of them, for \<open>k\<close> below \<open>\<lceil>n / 200\<rceil>\<close>: put together they give
  the records in their order, every chunk but the last has 200 records and
  the last has the rest, at least one.  The requests made are always the
  requests of the first chunks, one request per chunk, in order, each made
  once the one before was answered.  All chunks are submitted and
  \<open>post_rows\<close> returns exactly when \<open>json.dumps\<close> encodes every chunk and
  every request of a chunk is answered.  With 401 records these are three
  requests, of 200, 200 and 1 records.
\<close>

theorem post_rows_chunking:
  "post_rows pf e table [] oc sent = (Inr (), sent) \<and>
   (post_rows pf e table rows oc sent =
      (Inr (), sent @ map (\<lambda>k. post_request e (post_url e table oc) (take 200 (drop (200 * k) rows)))
                        [0..<(length rows + 199) div 200])
    \<longleftrightarrow>
      list_all (encodable pf)
        (map (\<lambda>k. take 200 (drop (200 * k) rows)) [0..<(length rows + 199) div 200]) \<and>
      answered pf sent
        (map (\<lambda>k. post_request e (post_url e table oc) (take 200 (drop (200 * k) rows)))
           [0..<(length rows + 199) div 200])) \<and>
   (\<exists>m \<le> (length rows + 199) div 200.
      snd (post_rows pf e table rows oc sent) =
        sent @ map (\<lambda>k. post_request e (post_url e table oc) (take 200 (drop (200 * k) rows))) [0..<m]) \<and>
   (length rows = 401 \<and>
    list_all (encodable pf)
      (map (\<lambda>k. take 200 (drop (200 * k) rows)) [0..<(length rows + 199) div 200]) \<and>
    answered pf sent
      (map (\<lambda>k. post_request e (post_url e table oc) (take 200 (drop (200 * k) rows)))
         [0..<(length rows + 199) div 200]) \<longrightarrow>
      map (\<lambda>q. map_option length (body q)) (drop (length sent) (snd (post_rows pf e table rows oc sent)))
        = [Some 200, Some 200, Some 1]) \<and>
   concat (map (\<lambda>k. take 200 (drop (200 * k) rows)) [0..<(length rows + 199) div 200]) = rows \<and>
   (\<forall>k < (length rows + 199) div 200.
      length (take 200 (drop (200 * k) rows)) =
        (if Suc k < (length rows + 199) div 200 then 200 else length rows - 200 * k) \<and>
      0 < length (take 200 (drop (200 * k) rows)))"
proof -
  let ?u = "post_url e table oc"
  let ?n = "(length rows + 199) div 200"
  let ?chunks = "map (\<lambda>k. take 200 (drop (200 * k) rows)) [0..<?n]"
  let ?reqs = "map (\<lambda>k. post_request e ?u (take 200 (drop (200 * k) rows))) [0..<?n]"
  have none: "post_rows pf e table [] oc sent = (Inr (), sent)"
    by (simp add: post_rows_def)
  have as_loop: "post_rows pf e table rows oc sent = post_chunks pf e table ?u rows 0 sent"
    by (cases "rows = []") (simp_all add: post_rows_def post_chunks.simps)
  have sent_all: "post_rows pf e table rows oc sent = (Inr (), sent @ ?reqs)"
    if "list_all (encodable pf) ?chunks" and "answered pf sent ?reqs"
    unfolding as_loop using post_chunks_sent [of pf 0 rows sent e ?u table] that by simp
  have returned: "list_all (encodable pf) ?chunks \<and> answered pf sent ?reqs"
    if "post_rows pf e table rows oc sent = (Inr (), sent @ ?reqs)"
  proof -
    from that have "fst (post_chunks pf e table ?u rows 0 sent) = Inr ()"
      unfolding as_loop by simp
    from post_chunks_returned [OF this] show ?thesis by simp
  qed
  have prefix: "\<exists>m \<le> ?n. snd (post_rows pf e table rows oc sent) =
        sent @ map (\<lambda>k. post_request e ?u (take 200 (drop (200 * k) rows))) [0..<m]"
    unfolding as_loop using post_chunks_prefix [of rows 0 pf e table ?u sent] by simp
  have sizes: "map (\<lambda>q. map_option length (body q)) (drop (length sent) (snd (post_rows pf e table rows oc sent)))
        = [Some 200, Some 200, Some 1]"
    if n: "length rows = 401" and "list_all (encodable pf) ?chunks" and "answered pf sent ?reqs"
  proof -
    have "[0..<?n] = [0, 1, 2]"
      by (simp add: n upt_rec)
    then show ?thesis
      by (simp add: sent_all [OF that(2,3)] post_request_def n)
  qed
  have whole: "concat ?chunks = rows"
    using chunks_concat [of 0 rows] by simp
  from none sent_all returned prefix sizes whole chunk_length [of _ rows]
  show ?thesis by blast
qed

text \<open>401 records on a network that accepts everything.\<close>

theorem post_rows_chunking_witness:
  "list_all (encodable accepting)
     (map (\<lambda>k. take 200 (drop (200 * k) (replicate 401 [(''user_id'', PStr ''u1'')]))) [0..<3]) \<and>
   answered accepting []
     (map (\<lambda>k. post_request example_env (post_url example_env ''recipients'' None)
                (take 200 (drop (200 * k) (replicate 401 [(''user_id'', PStr ''u1'')])))) [0..<3]) \<and>
   length (replicate 401 [(''user_id'', PStr ''u1'')]) = 401 \<and>
   map (\<lambda>q. map_option length (body q))
     (snd (post_rows accepting example_env ''recipients'' (replicate 401 [(''user_id'', PStr ''u1'')]) None []))
     = [Some 200, Some 200, Some 1] \<and>
   (0::nat) < (401 + 199) div 200 \<and>
   length (take 200 (drop (200 * 2) (replicate 401 [(''user_id'', PStr ''u1'')]))) = 1"
proof -
  let ?rows = "replicate 401 [(''user_id'', PStr ''u1'')]"
  have three: "[0..<(length ?rows + 199) div 200] = [0, 1, 2]" "[0..<3] = [0, 1, 2]"
    by (simp_all add: upt_rec)
  have enc: "list_all (encodable accepting)
     (map (\<lambda>k. take 200 (drop (200 * k) ?rows)) [0..<(length ?rows + 199) div 200])"
    unfolding three by (simp add: encodable_def accepting_def list_all_iff)
  have ans: "answered accepting []
     (map (\<lambda>k. post_request example_env (post_url example_env ''recipients'' None)
                (take 200 (drop (200 * k) ?rows))) [0..<(length ?rows + 199) div 200])"
    unfolding three by (simp add: accepting_def post_request_def)
  have n: "length ?rows = 401"
    by simp
  from post_rows_chunking [of accepting example_env "''recipients''" None "[]" ?rows] enc ans n
  have "map (\<lambda>q. map_option length (body q))
     (drop (length ([] :: request list))
       (snd (post_rows accepting example_env ''recipients'' ?rows None [])))
     = [Some 200, Some 200, Some 1]"
    by blast
  then have "map (\<lambda>q. map_option length (body q))
     (snd (post_rows accepting example_env ''recipients'' ?rows None []))
     = [Some 200, Some 200, Some 1]"
    by simp
  moreover from enc ans have "list_all (encodable accepting)
     (map (\<lambda>k. take 200 (drop (200 * k) ?rows)) [0..<3])"
    and "answered accepting []
     (map (\<lambda>k. post_request example_env (post_url example_env ''recipients'' None)
                (take 200 (drop (200 * k) ?rows))) [0..<3])"
    by simp_all
  ultimately show ?thesis by simp
qed

text \<open>
  A record that \<open>json.dumps\<close> cannot encode: \<open>post_rows\<close> raises
  \<open>TypeError\<close> and makes no request.
\<close>

lemma post_rows_unencodable:
  "post_rows accepting example_env ''user_context''
     [[(''user_id'', PStr ''u1''), (''date_added'', PTimestamp d)]] None [] = (Inl TypeError, [])"
  by (simp add: post_rows_def post_chunks.simps encodable_def accepting_def)

subsection \<open>Requests of a run, in order\<close>

lemma answered_append:
  "answered pf sent (a @ b) \<longleftrightarrow> answered pf sent a \<and> answered pf (sent @ a) b"
  by (induction a arbitrary: sent) auto

lemma stopped_Cons:
  "urlopen pf sent q \<noteq> Failed \<Longrightarrow> stopped pf sent (q # qs) = stopped pf (sent @ [q]) qs"
  by (cases qs) (auto simp: stopped_def)

lemma stopped_append:
  "answered pf sent a \<Longrightarrow> stopped pf sent (a @ b) = stopped pf (sent @ a) b"
  by (induction a arbitrary: sent) (auto simp: stopped_Cons)

lemma orderly_iff:
  "orderly pf sent out \<longleftrightarrow>
     (\<exists>new. snd out = sent @ new \<and> (answered pf sent new \<or> (isl (fst out) \<and> stopped pf sent new)))"
proof
  assume o: "orderly pf sent out"
  then have "snd out = sent @ drop (length sent) (snd out)"
    using append_take_drop_id [of "length sent" "snd out"] by (simp add: orderly_def)
  with o show "\<exists>new. snd out = sent @ new \<and> (answered pf sent new \<or> (isl (fst out) \<and> stopped pf sent new))"
    unfolding orderly_def by blast
next
  assume "\<exists>new. snd out = sent @ new \<and> (answered pf sent new \<or> (isl (fst out) \<and> stopped pf sent new))"
  then show "orderly pf sent out"
    by (auto simp: orderly_def)
qed

lemma orderly_same: "orderly pf sent (res, sent)"
  by (simp add: orderly_def)

lemma orderly_seq:
  assumes "orderly pf sent (Inr u, l1)" and "orderly pf l1 out"
  shows "orderly pf sent out"
proof -
  from assms(1) obtain n1 where n1: "l1 = sent @ n1" "answered pf sent n1"
    by (auto simp: orderly_iff)
  from assms(2) obtain n2 where n2: "snd out = l1 @ n2"
      "answered pf l1 n2 \<or> (isl (fst out) \<and> stopped pf l1 n2)"
    by (auto simp: orderly_iff)
  have "snd out = sent @ (n1 @ n2)"
    using n1 n2 by simp
  moreover have "answered pf sent (n1 @ n2) \<or> (isl (fst out) \<and> stopped pf sent (n1 @ n2))"
    using n1 n2 by (auto simp: answered_append stopped_append)
  ultimately show ?thesis
    unfolding orderly_iff by blast
qed

lemma orderly_http_request: "orderly pf sent (http_request pf e m u params sent)"
  by (simp add: http_request_def orderly_def stopped_def Let_def split: reply.splits)

lemma orderly_get_user_id: "orderly pf sent (get_user_id pf e email sent)"
proof -
  let ?h = "http_request pf e ''GET'' (the (SUPABASE_URL e) @ ''/auth/v1/admin/users'') [(''email'', email)] sent"
  have "snd (get_user_id pf e email sent) = snd ?h"
    by (simp add: get_user_id_def split: prod.splits sum.splits content.splits list.splits)
  moreover have "isl (fst ?h) \<longrightarrow> isl (fst (get_user_id pf e email sent))"
    by (simp add: get_user_id_def split: prod.splits sum.splits content.splits list.splits)
  ultimately show ?thesis
    using orderly_http_request [of pf sent e "''GET''" "the (SUPABASE_URL e) @ ''/auth/v1/admin/users''" "[(''email'', email)]"]
    by (auto simp: orderly_def)
qed

lemma orderly_post_chunks: "orderly pf sent (post_chunks pf e table u rows i sent)"
proof (induction pf e table u rows i sent rule: post_chunks.induct)
  case (1 pf e table u rows i sent)
  let ?q = "post_request e u (take 200 (drop i rows))"
  show ?case
  proof (cases "i < length rows \<and> encodable pf (take 200 (drop i rows))")
    case False
    then show ?thesis
      by (subst post_chunks.simps) (auto simp: orderly_same)
  next
    case True
    then have more: "i < length rows" and enc: "encodable pf (take 200 (drop i rows))"
      by simp_all
    show ?thesis
    proof (cases "urlopen pf sent ?q")
      case Failed
      then show ?thesis
        using True by (subst post_chunks.simps) (simp add: orderly_def stopped_def)
    next
      case (Reply st c)
      have step: "orderly pf sent (Inr (), sent @ [?q])"
        using Reply by (simp add: orderly_def)
      have "orderly pf (sent @ [?q]) (post_chunks pf e table u rows (i + 200) (sent @ [?q]))"
        using more enc Reply by (rule 1)
      with step have "orderly pf sent (post_chunks pf e table u rows (i + 200) (sent @ [?q]))"
        by (rule orderly_seq)
      then show ?thesis
        using True Reply by (subst post_chunks.simps) simp
    qed
  qed
qed

lemma orderly_post_rows: "orderly pf sent (post_rows pf e table rows oc sent)"
  by (simp add: post_rows_def orderly_same orderly_post_chunks)

lemma orderly_import_sheet: "orderly pf sent (import_sheet pf e xl sheet f table oc sent)"
  by (simp add: import_sheet_def orderly_same orderly_post_rows split: option.splits sum.splits)

lemma orderly_in_sequence:
  "(\<forall>b \<in> set bs. \<forall>s. orderly pf s (b s)) \<Longrightarrow> orderly pf sent (in_sequence bs sent)"
proof (induction bs arbitrary: sent)
  case Nil
  then show ?case by (simp add: orderly_same)
next
  case (Cons b bs)
  obtain res l where bl: "b sent = (res, l)"
    by (cases "b sent")
  from Cons.prems have "orderly pf sent (b sent)"
    by simp
  then have ob: "orderly pf sent (res, l)"
    unfolding bl .
  from Cons.prems have rest: "orderly pf l (in_sequence bs l)"
    by (intro Cons.IH) simp
  show ?case
  proof (cases res)
    case (Inl err)
    from ob show ?thesis
      unfolding in_sequence.simps bl Inl by simp
  next
    case (Inr u)
    from ob have "orderly pf sent (Inr u, l)"
      unfolding Inr .
    then have "orderly pf sent (in_sequence bs l)"
      using rest by (rule orderly_seq)
    then show ?thesis
      unfolding in_sequence.simps bl Inr by simp
  qed
qed

lemma orderly_run: "orderly pf [] (run pf e xl)"
proof (cases "unset (SUPABASE_URL e) \<or> unset (SERVICE_KEY e) \<or> unset (USER_EMAIL e)")
  case True
  then show ?thesis
    by (simp add: run_def orderly_same)
next
  case False
  obtain res l where g: "get_user_id pf e (the (USER_EMAIL e)) [] = (res, l)"
    by (cases "get_user_id pf e (the (USER_EMAIL e)) []")
  have "orderly pf [] (get_user_id pf e (the (USER_EMAIL e)) [])"
    by (rule orderly_get_user_id)
  then have og: "orderly pf [] (res, l)"
    unfolding g .
  show ?thesis
  proof (cases res)
    case (Inl err)
    from og have "orderly pf [] (Inl err :: error + unit, l)"
      unfolding Inl by (simp add: orderly_def)
    then show ?thesis
      unfolding run_def g Inl using False by simp
  next
    case (Inr uid)
    have "\<forall>b \<in> set (sheet_blocks pf e xl uid). \<forall>s. orderly pf s (b s)"
      by (simp add: sheet_blocks_def orderly_import_sheet)
    then have rest: "orderly pf l (in_sequence (sheet_blocks pf e xl uid) l)"
      by (rule orderly_in_sequence)
    from og have "orderly pf [] (Inr () :: error + unit, l)"
      unfolding Inr by (simp add: orderly_def)
    then have "orderly pf [] (in_sequence (sheet_blocks pf e xl uid) l)"
      using rest by (rule orderly_seq)
    then show ?thesis
      unfolding run_def g Inr using False by simp
  qed
qed

lemma orderly_failure_is_last:
  assumes "orderly pf [] out" and "snd out = pre @ q # post" and "urlopen pf pre q = Failed"
  shows "post = [] \<and> isl (fst out)"
proof -
  from assms(1,2) have c: "answered pf [] (pre @ q # post) \<or>
      (isl (fst out) \<and> stopped pf [] (pre @ q # post))"
    by (auto simp: orderly_iff)
  have na: "\<not> answered pf [] (pre @ q # rest)" for rest
    using assms(3) by (simp add: answered_append)
  from c na have s: "isl (fst out)" "stopped pf [] (pre @ q # post)"
    by blast+
  have "post = []"
  proof (rule ccontr)
    assume "post \<noteq> []"
    then have "butlast (pre @ q # post) = pre @ q # butlast post"
      by (simp add: butlast_append)
    with s(2) na [of "butlast post"] show False
      by (simp add: stopped_def)
  qed
  with s(1) show ?thesis by simp
qed

lemmas run_eval =
  run_def unset_def get_user_id_def http_request_def sheet_blocks_def import_sheet_def
  post_rows_def post_url_def post_request_def post_chunks.simps encodable_def example_env_def
  example_book_def
  merchant_row_def fx_row_def row_eval content_eval

lemma run_refusing:
  "run refusing example_env example_book =
     (Inl (RuntimeError ''Insert failed for merchant_map''), [lookup_request, merchant_request])"
  by (simp add: run_eval refusing_def lookup_request_def merchant_request_def)

text \<open>
  C1 (as the code has it).  When a request of the run fails, it is the last
  request the run makes and the run ends with an error.  So after a failed
  chunk neither the remaining chunks of that sheet nor any chunk of a later
  sheet is submitted: the exception raised by \<open>post_rows\<close> is caught nowhere
  in the module.
\<close>

theorem failed_request_ends_run:
  assumes "snd (run pf e xl) = pre @ q # post" and "urlopen pf pre q = Failed"
  shows "post = [] \<and> (\<exists>err. fst (run pf e xl) = Inl err)"
  using orderly_failure_is_last [OF orderly_run assms] by (auto simp: isl_def)

text \<open>
  The example workbook on the network that refuses submissions: the chunk of
  \<open>merchant_map\<close> fails and is the last request.
\<close>

theorem failed_request_ends_run_witness:
  "snd (run refusing example_env example_book) = [lookup_request] @ merchant_request # [] \<and>
   urlopen refusing [lookup_request] merchant_request = Failed \<and>
   (\<exists>err. fst (run refusing example_env example_book) = Inl err)"
proof -
  have l: "snd (run refusing example_env example_book) = [lookup_request] @ merchant_request # []"
    by (simp add: run_refusing)
  have f: "urlopen refusing [lookup_request] merchant_request = Failed"
    by (simp add: refusing_def merchant_request_def)
  from failed_request_ends_run [OF l f] l f show ?thesis by blast
qed

text \<open>
  C1 as stated lets the sheets after the failing one be imported all the same.
  The sheet \<open>FXRates\<close> of the example has a row to submit, and it is
  submitted when the network accepts the chunk of \<open>merchant_map\<close>; when that
  chunk fails the run ends with the error and no request for \<open>fx_rates\<close> is
  made.
\<close>

theorem later_sheet_not_imported_counterexample:
  "transform (fx_row (PStr ''u1'')) [[(''Currency'', PStr ''USD'')]] =
     Inr [[(''user_id'', PStr ''u1''), (''currency'', PStr ''USD''), (''rate_to_qar'', PNone),
           (''formula'', PNone)]] \<and>
   map url (snd (run accepting example_env example_book)) =
     [''https://db.example/auth/v1/admin/users'',
      ''https://db.example/rest/v1/merchant_map?on_conflict=user_id,pattern'',
      ''https://db.example/rest/v1/fx_rates?on_conflict=user_id,currency''] \<and>
   fst (run refusing example_env example_book) = Inl (RuntimeError ''Insert failed for merchant_map'') \<and>
   map url (snd (run refusing example_env example_book)) =
     [''https://db.example/auth/v1/admin/users'',
      ''https://db.example/rest/v1/merchant_map?on_conflict=user_id,pattern'']"
proof -
  have "map url (snd (run accepting example_env example_book)) =
     [''https://db.example/auth/v1/admin/users'',
      ''https://db.example/rest/v1/merchant_map?on_conflict=user_id,pattern'',
      ''https://db.example/rest/v1/fx_rates?on_conflict=user_id,currency'']"
    by (simp add: run_eval accepting_def)
  moreover have "transform (fx_row (PStr ''u1'')) [[(''Currency'', PStr ''USD'')]] =
     Inr [[(''user_id'', PStr ''u1''), (''currency'', PStr ''USD''), (''rate_to_qar'', PNone),
           (''formula'', PNone)]]"
    by (simp add: fx_row_def row_eval)
  ultimately show ?thesis
    by (simp add: run_refusing lookup_request_def merchant_request_def)
qed

subsection \<open>What a submission asks for\<close>

lemma post_chunks_requests:
  "q \<in> set (snd (post_chunks pf e table u rows i sent)) \<Longrightarrow>
     q \<in> set sent \<or> (\<exists>j < length rows. q = post_request e u (take 200 (drop j rows)))"
proof (induction pf e table u rows i sent rule: post_chunks.induct)
  case (1 pf e table u rows i sent)
  let ?q = "post_request e u (take 200 (drop i rows))"
  show ?case
  proof (cases "i < length rows \<and> encodable pf (take 200 (drop i rows))")
    case False
    with "1.prems" show ?thesis
      by (subst (asm) post_chunks.simps) (auto split: if_splits)
  next
    case True
    then have more: "i < length rows" and enc: "encodable pf (take 200 (drop i rows))"
      by simp_all
    show ?thesis
    proof (cases "urlopen pf sent ?q")
      case Failed
      with True "1.prems" show ?thesis
        by (subst (asm) post_chunks.simps) auto
    next
      case (Reply st c)
      from True Reply "1.prems"
      have "q \<in> set (snd (post_chunks pf e table u rows (i + 200) (sent @ [?q])))"
        by (subst (asm) post_chunks.simps) simp
      with more enc Reply have "q \<in> set (sent @ [?q]) \<or>
          (\<exists>j < length rows. q = post_request e u (take 200 (drop j rows)))"
        by (intro "1.IH")
      with more show ?thesis by auto
    qed
  qed
qed

lemma post_rows_requests:
  assumes "q \<in> set (snd (post_rows pf e table rows oc sent))" and "q \<notin> set sent"
  shows "\<exists>j < length rows. q = post_request e (post_url e table oc) (take 200 (drop j rows))"
proof (cases "rows = []")
  case True
  with assms show ?thesis by (simp add: post_rows_def)
next
  case False
  with assms(1) have "q \<in> set (snd (post_chunks pf e table (post_url e table oc) rows 0 sent))"
    by (simp add: post_rows_def)
  from post_chunks_requests [OF this] assms(2) show ?thesis by blast
qed

text \<open>
  C2 (as the code has it).  Every request made by \<open>post_rows\<close> carries the
  header \<open>Prefer: resolution=merge-duplicates\<close>, whether a constraint is
  given or not.  What depends on the constraint is the address: the parameter
  \<open>on_conflict\<close> is appended exactly when a non-empty constraint is given.
\<close>

theorem post_rows_merge_preference:
  assumes "q \<in> set (snd (post_rows pf e table rows oc sent))" and "q \<notin> set sent"
  shows "headers q = std_headers e @ [(''Prefer'', ''resolution=merge-duplicates'')] \<and>
         url q = the (SUPABASE_URL e) @ ''/rest/v1/'' @ table
                   @ (if oc = None \<or> oc = Some [] then [] else ''?on_conflict='' @ the oc)"
proof -
  from post_rows_requests [OF assms] obtain j where
    "q = post_request e (post_url e table oc) (take 200 (drop j rows))" by blast
  then show ?thesis
    by (simp add: post_request_def post_url_def unset_def)
qed

text \<open>A submission with the constraint of \<open>fx_rates\<close>.\<close>

theorem post_rows_merge_preference_witness:
  "\<lparr>meth = ''POST'', url = ''https://db.example/rest/v1/fx_rates?on_conflict=user_id,currency'',
      query = [],
      headers = [(''Authorization'', ''Bearer key''), (''apikey'', ''key''),
                 (''Content-Type'', ''application/json''),
                 (''Prefer'', ''resolution=merge-duplicates'')],
      body = Some [[(''user_id'', PStr ''u1''), (''currency'', PStr ''USD'')]]\<rparr>
     \<in> set (snd (post_rows accepting example_env ''fx_rates''
                 [[(''user_id'', PStr ''u1''), (''currency'', PStr ''USD'')]]
                 (Some ''user_id,currency'') [])) \<and>
   std_headers example_env @ [(''Prefer'', ''resolution=merge-duplicates'')] =
     [(''Authorization'', ''Bearer key''), (''apikey'', ''key''),
      (''Content-Type'', ''application/json''), (''Prefer'', ''resolution=merge-duplicates'')] \<and>
   the (SUPABASE_URL example_env) @ ''/rest/v1/'' @ ''fx_rates''
       @ (if Some ''user_id,currency'' = None \<or> Some ''user_id,currency'' = Some []
          then [] else ''?on_conflict='' @ the (Some ''user_id,currency''))
     = ''https://db.example/rest/v1/fx_rates?on_conflict=user_id,currency''"
proof -
  let ?q = "\<lparr>meth = ''POST'', url = ''https://db.example/rest/v1/fx_rates?on_conflict=user_id,currency'',
      query = [],
      headers = [(''Authorization'', ''Bearer key''), (''apikey'', ''key''),
                 (''Content-Type'', ''application/json''),
                 (''Prefer'', ''resolution=merge-duplicates'')],
      body = Some [[(''user_id'', PStr ''u1''), (''currency'', PStr ''USD'')]]\<rparr>"
  have m: "?q \<in> set (snd (post_rows accepting example_env ''fx_rates''
                 [[(''user_id'', PStr ''u1''), (''currency'', PStr ''USD'')]]
                 (Some ''user_id,currency'') []))"
    by (simp add: run_eval accepting_def std_headers_def)
  have n: "?q \<notin> set []"
    by simp
  from post_rows_merge_preference [OF m n] m show ?thesis
    by (simp add: example_env_def std_headers_def)
qed

text \<open>
  C2 as stated has no merge request in a submission made without a
  constraint.  The submission of a recipient, made without one, carries the
  merge preference.
\<close>

theorem append_only_merge_preference_counterexample:
  "map headers (snd (post_rows accepting example_env ''recipients''
       [[(''user_id'', PStr ''u1''), (''phone'', PStr ''97455512345'')]] None [])) =
     [[(''Authorization'', ''Bearer key''), (''apikey'', ''key''),
       (''Content-Type'', ''application/json''), (''Prefer'', ''resolution=merge-duplicates'')]]"
  by (simp add: run_eval accepting_def std_headers_def)

subsection \<open>The owner of the records\<close>

lemma transform_kept:
  "transform f df = Inr rows \<Longrightarrow> d \<in> set rows \<Longrightarrow> \<exists>r \<in> set df. f r = Inr (Some d)"
proof (induction df arbitrary: rows)
  case Nil
  then show ?case by simp
next
  case (Cons r df)
  show ?case
  proof (cases "f r")
    case (Inl err)
    with Cons.prems show ?thesis by simp
  next
    case (Inr kept)
    show ?thesis
    proof (cases kept)
      case None
      with Inr Cons show ?thesis by auto
    next
      case (Some d')
      with Inr Cons.prems obtain ds where ds: "transform f df = Inr ds" "rows = d' # ds"
        by (auto split: sum.splits)
      with Cons.prems(2) have "d = d' \<or> d \<in> set ds"
        by simp
      with Cons.IH [OF ds(1)] Inr Some show ?thesis by auto
    qed
  qed
qed

lemma transform_raises:
  "r \<in> set df \<Longrightarrow> f r = Inl err \<Longrightarrow> \<exists>err'. transform f df = Inl err'"
  by (induction df) (auto split: sum.splits option.splits)

lemma ledger_owner: "ledger_row uid r = Inr (Some d) \<Longrightarrow> map_of d ''user_id'' = Some uid"
  by (auto simp: ledger_row_def Let_def split: if_splits sum.splits)

lemma merchant_owner: "merchant_row frepr uid r = Inr (Some d) \<Longrightarrow> map_of d ''user_id'' = Some uid"
  by (auto simp: merchant_row_def Let_def split: if_splits)

lemma fx_owner: "fx_row uid r = Inr (Some d) \<Longrightarrow> map_of d ''user_id'' = Some uid"
  by (auto simp: fx_row_def Let_def split: if_splits)

lemma context_owner: "context_row uid r = Inr (Some d) \<Longrightarrow> map_of d ''user_id'' = Some uid"
  by (auto simp: context_row_def Let_def split: if_splits)

lemma recipient_owner: "recipient_row frepr uid r = Inr (Some d) \<Longrightarrow> map_of d ''user_id'' = Some uid"
  by (auto simp: recipient_row_def Let_def split: if_splits)

lemma insight_owner: "insight_row uid r = Inr (Some d) \<Longrightarrow> map_of d ''user_id'' = Some uid"
  by (auto simp: insight_row_def Let_def split: if_splits)

lemma owned_post_request:
  "(\<forall>d \<in> set rows. map_of d ''user_id'' = Some uid) \<Longrightarrow>
     owned uid (post_request e u (take 200 (drop j rows)))"
  by (auto simp: owned_def post_request_def list_all_iff dest: in_set_takeD in_set_dropD)

lemma owned_import_sheet:
  assumes f: "\<And>r d. f r = Inr (Some d) \<Longrightarrow> map_of d ''user_id'' = Some uid"
    and s: "\<forall>q \<in> set sent. owned uid q"
  shows "\<forall>q \<in> set (snd (import_sheet pf e xl sheet f table oc sent)). owned uid q"
proof (cases "map_of xl sheet")
  case None
  with s show ?thesis by (simp add: import_sheet_def)
next
  case (Some df)
  show ?thesis
  proof (cases "transform f df")
    case (Inl err)
    with Some s show ?thesis by (simp add: import_sheet_def)
  next
    case (Inr rows)
    have rows: "\<forall>d \<in> set rows. map_of d ''user_id'' = Some uid"
      using transform_kept [OF Inr] f by blast
    have "owned uid q" if "q \<in> set (snd (post_rows pf e table rows oc sent))" for q
    proof (cases "q \<in> set sent")
      case True
      with s show ?thesis by simp
    next
      case False
      from post_rows_requests [OF that False] owned_post_request [OF rows] show ?thesis by blast
    qed
    with Some Inr show ?thesis by (simp add: import_sheet_def)
  qed
qed

lemma owned_in_sequence:
  "(\<forall>b \<in> set bs. \<forall>s. (\<forall>q \<in> set s. owned uid q) \<longrightarrow> (\<forall>q \<in> set (snd (b s)). owned uid q)) \<Longrightarrow>
     (\<forall>q \<in> set sent. owned uid q) \<Longrightarrow> \<forall>q \<in> set (snd (in_sequence bs sent)). owned uid q"
proof (induction bs arbitrary: sent)
  case Nil
  then show ?case by simp
next
  case (Cons b bs)
  obtain res l where bl: "b sent = (res, l)"
    by (cases "b sent")
  from Cons.prems have "\<forall>q \<in> set (snd (b sent)). owned uid q"
    by simp
  then have l: "\<forall>q \<in> set l. owned uid q"
    unfolding bl by simp
  from Cons.prems(1) have "\<forall>q \<in> set (snd (in_sequence bs l)). owned uid q"
    by (intro Cons.IH l) simp
  with l show ?case
    unfolding in_sequence.simps bl by (cases res) simp_all
qed

lemma http_request_log:
  "snd (http_request pf e m u params sent) =
     sent @ [\<lparr>meth = m, url = u, query = params, headers = std_headers e, body = None\<rparr>]"
  by (simp add: http_request_def Let_def split: reply.splits)

lemma get_user_id_log:
  "snd (get_user_id pf e email sent) =
     snd (http_request pf e ''GET'' (the (SUPABASE_URL e) @ ''/auth/v1/admin/users'')
            [(''email'', email)] sent)"
  by (simp add: get_user_id_def split: prod.splits sum.splits content.splits list.splits)

lemma owned_lookup:
  assumes "get_user_id pf e email [] = (res, l)"
  shows "\<forall>q \<in> set l. owned uid q"
proof -
  have "l = snd (get_user_id pf e email [])"
    using assms by simp
  then show ?thesis
    unfolding get_user_id_log http_request_log by (simp add: owned_def)
qed

lemma owned_blocks:
  assumes b: "b \<in> set (sheet_blocks pf e xl uid)" and s: "\<forall>q \<in> set s. owned uid q"
  shows "\<forall>q \<in> set (snd (b s)). owned uid q"
proof -
  from b consider
      "b = import_sheet pf e xl ''RawLedger'' (ledger_row uid) ''raw_ledger''
             (Some ''user_id,idempotency_key'')"
    | "b = import_sheet pf e xl ''MerchantMap'' (merchant_row (float_repr pf) uid) ''merchant_map''
             (Some ''user_id,pattern'')"
    | "b = import_sheet pf e xl ''FXRates'' (fx_row uid) ''fx_rates'' (Some ''user_id,currency'')"
    | "b = import_sheet pf e xl ''UserContext'' (context_row uid) ''user_context'' None"
    | "b = import_sheet pf e xl ''Recipients'' (recipient_row (float_repr pf) uid) ''recipients'' None"
    | "b = import_sheet pf e xl ''Insights'' (insight_row uid) ''insights'' None"
    unfolding sheet_blocks_def by (simp only: list.set insert_iff empty_iff) blast
  then show ?thesis
  proof cases
    case 1
    show ?thesis unfolding 1 using ledger_owner s by (rule owned_import_sheet)
  next
    case 2
    show ?thesis unfolding 2 using merchant_owner s by (rule owned_import_sheet)
  next
    case 3
    show ?thesis unfolding 3 using fx_owner s by (rule owned_import_sheet)
  next
    case 4
    show ?thesis unfolding 4 using context_owner s by (rule owned_import_sheet)
  next
    case 5
    show ?thesis unfolding 5 using recipient_owner s by (rule owned_import_sheet)
  next
    case 6
    show ?thesis unfolding 6 using insight_owner s by (rule owned_import_sheet)
  qed
qed

lemma owned_run:
  assumes "get_user_id pf e (the (USER_EMAIL e)) [] = (Inr uid, l)"
  shows "\<forall>q \<in> set (snd (run pf e xl)). owned uid q"
proof (cases "unset (SUPABASE_URL e) \<or> unset (SERVICE_KEY e) \<or> unset (USER_EMAIL e)")
  case True
  then show ?thesis by (simp add: run_def)
next
  case False
  have l: "\<forall>q \<in> set l. owned uid q"
    using owned_lookup [OF assms] .
  have "\<forall>b \<in> set (sheet_blocks pf e xl uid).
          \<forall>s. (\<forall>q \<in> set s. owned uid q) \<longrightarrow> (\<forall>q \<in> set (snd (b s)). owned uid q)"
    using owned_blocks by blast
  then have "\<forall>q \<in> set (snd (in_sequence (sheet_blocks pf e xl uid) l)). owned uid q"
    using l by (rule owned_in_sequence)
  then show ?thesis
    unfolding run_def assms using False by simp
qed

lemma get_user_id_value:
  assumes "get_user_id pf e email sent = (Inr uid, l)"
  shows "\<exists>status ids.
    urlopen pf sent
      \<lparr>meth = ''GET'', url = the (SUPABASE_URL e) @ ''/auth/v1/admin/users'',
       query = [(''email'', email)], headers = std_headers e, body = None\<rparr>
      = Reply status (Users (uid # ids)) \<and> status < 300"
proof -
  let ?q = "\<lparr>meth = ''GET'', url = the (SUPABASE_URL e) @ ''/auth/v1/admin/users'',
       query = [(''email'', email)], headers = std_headers e, body = None\<rparr>"
  show ?thesis
  proof (cases "urlopen pf sent ?q")
    case Failed
    with assms show ?thesis
      by (simp add: get_user_id_def http_request_def)
  next
    case (Reply status c)
    with assms show ?thesis
      by (cases c) (auto simp: get_user_id_def http_request_def split: if_splits list.splits)
  qed
qed

text \<open>
  C9 (as the code has it).  A record emitted by any of the six transformers
  for the owner \<open>uid\<close> has the field \<open>user_id\<close> with the value \<open>uid\<close>.  In a
  run whose lookup returned \<open>uid\<close>, every record of every submitted chunk has
  that owner: the lookup is made once, before the first sheet, and its result
  is the \<open>user_id\<close> of every sheet block.  That result is the \<open>id\<close> of the
  first user in the answer to the lookup, passed on as it is: it is \<open>None\<close>
  when the answer has \<open>null\<close> there.
\<close>

theorem owner_on_every_record:
  "(\<forall>f \<in> set [ledger_row uid, merchant_row frepr uid, fx_row uid, context_row uid,
                 recipient_row frepr uid, insight_row uid].
      \<forall>r d. f r = Inr (Some d) \<longrightarrow> map_of d ''user_id'' = Some uid) \<and>
   (get_user_id pf e (the (USER_EMAIL e)) [] = (Inr uid, l) \<longrightarrow>
      (\<forall>q \<in> set (snd (run pf e xl)). \<forall>chunk. body q = Some chunk \<longrightarrow>
         (\<forall>d \<in> set chunk. map_of d ''user_id'' = Some uid)) \<and>
      (\<exists>status ids.
         urlopen pf []
           \<lparr>meth = ''GET'', url = the (SUPABASE_URL e) @ ''/auth/v1/admin/users'',
            query = [(''email'', the (USER_EMAIL e))], headers = std_headers e, body = None\<rparr>
           = Reply status (Users (uid # ids)) \<and> status < 300))"
proof -
  have rows: "\<forall>f \<in> set [ledger_row uid, merchant_row frepr uid, fx_row uid, context_row uid,
                 recipient_row frepr uid, insight_row uid].
      \<forall>r d. f r = Inr (Some d) \<longrightarrow> map_of d ''user_id'' = Some uid"
    using ledger_owner [of uid] merchant_owner [of frepr uid] fx_owner [of uid]
      context_owner [of uid] recipient_owner [of frepr uid] insight_owner [of uid]
    by (simp only: list.set ball_simps simp_thms) blast
  have "\<forall>d \<in> set chunk. map_of d ''user_id'' = Some uid"
    if "get_user_id pf e (the (USER_EMAIL e)) [] = (Inr uid, l)"
      and "q \<in> set (snd (run pf e xl))" and "body q = Some chunk" for q chunk
    using owned_run [OF that(1), of xl] that(2,3) by (auto simp: owned_def list_all_iff)
  with rows get_user_id_value [of pf e "the (USER_EMAIL e)" "[]" uid l] show ?thesis by blast
qed

text \<open>The merchant pattern of the example workbook, submitted for the user \<open>u1\<close>.\<close>

theorem owner_on_every_record_witness:
  "merchant_row example_repr (PStr ''u1'') [(''Pattern'', PStr ''Shop'')] =
     Inr (Some [(''user_id'', PStr ''u1''), (''pattern'', PStr ''shop''), (''display_name'', PNone),
                (''consolidated_name'', PNone), (''category'', PNone)]) \<and>
   get_user_id accepting example_env (the (USER_EMAIL example_env)) [] = (Inr (PStr ''u1''), [lookup_request]) \<and>
   urlopen accepting [] lookup_request = Reply 200 (Users [PStr ''u1'']) \<and>
   merchant_request \<in> set (snd (run accepting example_env example_book)) \<and>
   body merchant_request =
     Some [[(''user_id'', PStr ''u1''), (''pattern'', PStr ''shop''), (''display_name'', PNone),
            (''consolidated_name'', PNone), (''category'', PNone)]] \<and>
   map_of [(''user_id'', PStr ''u1''), (''pattern'', PStr ''shop''), (''display_name'', PNone),
           (''consolidated_name'', PNone), (''category'', PNone)] ''user_id'' = Some (PStr ''u1'')"
proof -
  let ?d = "[(''user_id'', PStr ''u1''), (''pattern'', PStr ''shop''), (''display_name'', PNone),
             (''consolidated_name'', PNone), (''category'', PNone)]"
  have k: "merchant_row example_repr (PStr ''u1'') [(''Pattern'', PStr ''Shop'')] = Inr (Some ?d)"
    by (simp add: merchant_row_def row_eval content_eval)
  have g: "get_user_id accepting example_env (the (USER_EMAIL example_env)) [] =
      (Inr (PStr ''u1''), [lookup_request])"
    by (simp add: run_eval accepting_def lookup_request_def)
  have u: "urlopen accepting [] lookup_request = Reply 200 (Users [PStr ''u1''])"
    by (simp add: accepting_def lookup_request_def)
  have "snd (run accepting example_env example_book) ! 1 = merchant_request"
    by (simp add: run_eval accepting_def lookup_request_def merchant_request_def)
  moreover have "1 < length (snd (run accepting example_env example_book))"
    by (simp add: run_eval accepting_def)
  ultimately have m: "merchant_request \<in> set (snd (run accepting example_env example_book))"
    using nth_mem by metis
  have b: "body merchant_request = Some [?d]"
    by (simp add: merchant_request_def)
  from owner_on_every_record [of "PStr ''u1''" example_repr accepting example_env "[lookup_request]"
      example_book] g m b
  have "map_of ?d ''user_id'' = Some (PStr ''u1'')"
    by fastforce
  with k g u m b show ?thesis by blast
qed

text \<open>
  C9 as stated has a non-null owner on every record.  When the answer to the
  lookup has a user whose \<open>id\<close> is \<open>null\<close>, the run goes through and the
  records it submits have the owner \<open>None\<close>.
\<close>

theorem null_owner_counterexample:
  "urlopen nameless [] lookup_request = Reply 200 (Users [PNone]) \<and>
   fst (run nameless example_env example_book) = Inr () \<and>
   map body (snd (run nameless example_env example_book)) =
     [None,
      Some [[(''user_id'', PNone), (''pattern'', PStr ''shop''), (''display_name'', PNone),
             (''consolidated_name'', PNone), (''category'', PNone)]],
      Some [[(''user_id'', PNone), (''currency'', PStr ''USD''), (''rate_to_qar'', PNone),
             (''formula'', PNone)]]]"
  by (simp add: run_eval nameless_def lookup_request_def)

subsection \<open>Amounts that are not numbers\<close>

lemma minute_of_example: "normalize_minute ''2024-03-01T10:07:42Z'' = Inr ''2024-03-01T10:07''"
  by (simp add: timestamp_eval)

lemma float_of_abc: "float_of_string ''abc'' = None"
  by (simp add: float_of_string_def strip_def is_space_def parse_abs_float_def parse_number_def
      is_exp_mark_def is_digit_def content_eval)

lemma ledger_row_amount_raises:
  assumes "truthy (clean (get r ''Timestamp''))" and "clean (get r ''Amount'') \<noteq> PNone"
    and "py_float (get r ''Amount'') = Inl err"
  shows "ledger_row uid r =
    (case call_build_idem (py_or (clean (get r ''RawText'')) (PStr [])) (clean (get r ''Timestamp'')) of
       Inl e \<Rightarrow> Inl e
     | Inr key \<Rightarrow> Inl err)"
  using assms by (simp add: ledger_row_def ledger_amount_def Let_def split: sum.splits)

text \<open>
  C10.  A row of \<open>RawLedger\<close> with a timestamp whose \<open>Amount\<close> cell is
  neither missing nor NaN and is refused by \<open>float\<close> makes the loop body
  raise: the row is neither skipped nor turned into a record.  When the key
  could be built the error is the one of \<open>float\<close>.  The transformation of
  a sheet holding such a row raises, and the run ends there with an error,
  before any submission.
\<close>

theorem ledger_amount_must_be_numeric:
  assumes "truthy (clean (get r ''Timestamp''))" and "clean (get r ''Amount'') \<noteq> PNone"
    and "py_float (get r ''Amount'') = Inl err"
  shows "(\<exists>err'. ledger_row uid r = Inl err') \<and>
    (\<forall>key. call_build_idem (py_or (clean (get r ''RawText'')) (PStr [])) (clean (get r ''Timestamp''))
              = Inr key \<longrightarrow> ledger_row uid r = Inl err) \<and>
    (r \<in> set df \<longrightarrow> (\<exists>err'. transform (ledger_row uid) df = Inl err')) \<and>
    (r \<in> set df \<and> map_of xl ''RawLedger'' = Some df \<and>
     \<not> unset (SUPABASE_URL e) \<and> \<not> unset (SERVICE_KEY e) \<and> \<not> unset (USER_EMAIL e) \<and>
     get_user_id pf e (the (USER_EMAIL e)) [] = (Inr uid, l)
       \<longrightarrow> (\<exists>err'. run pf e xl = (Inl err', l)))"
proof -
  note row = ledger_row_amount_raises [OF assms, of uid]
  have raises: "\<exists>err'. ledger_row uid r = Inl err'"
    unfolding row by (simp split: sum.splits)
  have exact: "ledger_row uid r = Inl err"
    if "call_build_idem (py_or (clean (get r ''RawText'')) (PStr [])) (clean (get r ''Timestamp'')) = Inr key"
    for key
    unfolding row that by simp
  have sheet: "\<exists>err'. transform (ledger_row uid) df = Inl err'" if "r \<in> set df"
    using raises transform_raises [OF that] by blast
  have whole: "\<exists>err'. run pf e xl = (Inl err', l)"
    if "r \<in> set df" and x: "map_of xl ''RawLedger'' = Some df"
      and c: "\<not> unset (SUPABASE_URL e)" "\<not> unset (SERVICE_KEY e)" "\<not> unset (USER_EMAIL e)"
      and g: "get_user_id pf e (the (USER_EMAIL e)) [] = (Inr uid, l)"
  proof -
    from sheet [OF that(1)] obtain err' where t: "transform (ledger_row uid) df = Inl err'"
      by blast
    have "import_sheet pf e xl ''RawLedger'' (ledger_row uid) ''raw_ledger''
            (Some ''user_id,idempotency_key'') l = (Inl err', l)"
      by (simp add: import_sheet_def x t)
    then have "run pf e xl = (Inl err', l)"
      unfolding run_def g sheet_blocks_def using c by simp
    then show ?thesis by blast
  qed
  from raises exact sheet whole show ?thesis by blast
qed

text \<open>The amount \<open>abc\<close>: \<open>float\<close> raises \<open>ValueError\<close>.\<close>

theorem ledger_amount_must_be_numeric_witness:
  "truthy (clean (get [(''Timestamp'', PStr ''2024-03-01T10:07:42Z''), (''Amount'', PStr ''abc'')] ''Timestamp'')) \<and>
   clean (get [(''Timestamp'', PStr ''2024-03-01T10:07:42Z''), (''Amount'', PStr ''abc'')] ''Amount'') \<noteq> PNone \<and>
   py_float (get [(''Timestamp'', PStr ''2024-03-01T10:07:42Z''), (''Amount'', PStr ''abc'')] ''Amount'')
     = Inl ValueError \<and>
   ledger_row (PStr ''u1'') [(''Timestamp'', PStr ''2024-03-01T10:07:42Z''), (''Amount'', PStr ''abc'')]
     = Inl ValueError \<and>
   (\<exists>err'. run accepting example_env
              [(''RawLedger'', [[(''Timestamp'', PStr ''2024-03-01T10:07:42Z''), (''Amount'', PStr ''abc'')]])]
            = (Inl err', [lookup_request]))"
proof -
  let ?r = "[(''Timestamp'', PStr ''2024-03-01T10:07:42Z''), (''Amount'', PStr ''abc'')]"
  have a: "truthy (clean (get ?r ''Timestamp''))"
    by (simp add: get_def)
  have b: "clean (get ?r ''Amount'') \<noteq> PNone"
    by (simp add: get_def)
  have c: "py_float (get ?r ''Amount'') = Inl ValueError"
    by (simp add: get_def float_of_abc)
  have k: "call_build_idem (py_or (clean (get ?r ''RawText'')) (PStr [])) (clean (get ?r ''Timestamp''))
      = Inr (sha256 (utf8 (content_of [] @ ''|'' @ ''2024-03-01T10:07'')))"
    by (simp add: row_eval build_idem_def idem_base_def minute_of_example)
  have g: "get_user_id accepting example_env (the (USER_EMAIL example_env)) [] =
      (Inr (PStr ''u1''), [lookup_request])"
    by (simp add: run_eval accepting_def lookup_request_def)
  have e: "\<not> unset (SUPABASE_URL example_env)" "\<not> unset (SERVICE_KEY example_env)"
      "\<not> unset (USER_EMAIL example_env)"
    by (simp_all add: unset_def example_env_def)
  have x: "map_of [(''RawLedger'', [?r])] ''RawLedger'' = Some [?r]"
    by simp
  have s: "?r \<in> set [?r]"
    by simp
  from ledger_amount_must_be_numeric [OF a b c, of "PStr ''u1''" "[?r]" "[(''RawLedger'', [?r])]"
      example_env accepting "[lookup_request]"] k g e x s
  have "ledger_row (PStr ''u1'') ?r = Inl ValueError"
    and "\<exists>err'. run accepting example_env [(''RawLedger'', [?r])] = (Inl err', [lookup_request])"
    by blast+
  with a b c show ?thesis by blast
qed

subsection \<open>The minute of a timestamp\<close>

lemma replicate_numeral: "replicate (numeral k) x = x # replicate (pred_numeral k) x"
  by (simp add: numeral_eq_Suc)

lemma sha_one_block: "length bs = 64 \<Longrightarrow> sha_blocks hs bs = compress hs (be_words (take 64 bs))"
  by (subst sha_blocks.simps, subst sha_blocks.simps) auto

lemmas compress_eval =
  compress_def K256_def H0_def sched_next_def ssig0_def ssig1_def bsig0_def bsig1_def Ch_def
  Maj_def rotr_def shr_def not32_def add32_def

lemma block_utc: "be_words (take 64 (pad (utf8 ''|2024-03-01T10:07''))) =
    [2083663922, 875376691, 758133076, 825244208, 931135488, 0, 0, 0, 0, 0, 0, 0, 0, 0, 0, 136]"
  by (simp add: pad_def utf8_def be_bytes8_def replicate_numeral)

lemma length_utc: "length (pad (utf8 ''|2024-03-01T10:07'')) = 64"
  by (simp add: pad_def utf8_def be_bytes8_def)

lemma compress_utc:
  "compress H0 [2083663922, 875376691, 758133076, 825244208, 931135488, 0, 0, 0, 0, 0, 0, 0, 0, 0, 0, 136] =
     [3439421172, 1869795646, 202142121, 3442121433, 3085368682, 771851695, 2178713141, 3118513181]"
  by (simp add: compress_eval)

lemma digest_utc:
  "sha256 (utf8 ''|2024-03-01T10:07'') =
     ''cd0166f46f72d13e0c0c71a9cd2a9ad9b7e6fd6a2e0185af81dc8635b9e0bc1d''"
  unfolding sha256_def sha_one_block [OF length_utc] block_utc compress_utc
  by (simp add: hex32_def hex_digit_def)

lemma utc_of_z: "utc_minute_of ''2024-03-01T10:07:42Z'' = Some 1064082847"
  by (simp add: utc_minute_of_def utc_minute_def wall_microsecond_def toordinal_def
      days_before_year_def days_before_month_def upt_rec timestamp_eval)

lemma utc_of_plus3: "utc_minute_of ''2024-03-01T13:07:42+03:00'' = Some 1064082847"
  by (simp add: utc_minute_of_def utc_minute_def wall_microsecond_def toordinal_def
      days_before_year_def days_before_month_def upt_rec timestamp_eval)

lemma block_plus3: "be_words (take 64 (pad (utf8 ''|2024-03-01T13:07''))) =
    [2083663922, 875376691, 758133076, 825440816, 931135488, 0, 0, 0, 0, 0, 0, 0, 0, 0, 0, 136]"
  by (simp add: pad_def utf8_def be_bytes8_def replicate_numeral)

lemma length_plus3: "length (pad (utf8 ''|2024-03-01T13:07'')) = 64"
  by (simp add: pad_def utf8_def be_bytes8_def)

lemma compress_plus3:
  "compress H0 [2083663922, 875376691, 758133076, 825440816, 931135488, 0, 0, 0, 0, 0, 0, 0, 0, 0, 0, 136] =
     [3468640883, 2771401376, 64581209, 1476828077, 1266547679, 4110179895, 3372267609, 2278980241]"
  by (simp add: compress_eval)

lemma digest_plus3:
  "sha256 (utf8 ''|2024-03-01T13:07'') =
     ''cebf4273a5303aa003d96e5958069bad4b7dfbdff4fc5e37c900b85987d67a91''"
  unfolding sha256_def sha_one_block [OF length_plus3] block_plus3 compress_plus3
  by (simp add: hex32_def hex_digit_def)

lemma minute_of_plus3: "normalize_minute ''2024-03-01T13:07:42+03:00'' = Inr ''2024-03-01T13:07''"
  by (simp add: timestamp_eval)

lemma normalize_minute_value:
  assumes "fromisoformat (replace_char (CHR ''Z'') ''+00:00'' t) = Inr d"
  shows "normalize_minute t = Inr (take 16 (minute_text d))"
proof -
  have "minute_text (d\<lparr>second := 0, microsecond := 0\<rparr>) = minute_text d"
    by (simp add: minute_text_def)
  with minute_prefix [of "d\<lparr>second := 0, microsecond := 0\<rparr>"] assms show ?thesis
    by (simp add: normalize_minute_def)
qed

text \<open>
  C3 (as the code has it).  The key is built from the minute as the timestamp
  writes it: \<open>normalize_minute\<close> parses the string and prints date, hour
  and minute of the parsed value without applying its offset.  Two timestamps
  that parse to values with the same year, month, day, hour and minute get
  the same key for the same text, whatever their seconds and offsets.
\<close>

theorem same_written_minute_same_key:
  assumes "fromisoformat (replace_char (CHR ''Z'') ''+00:00'' t1) = Inr d1"
    and "fromisoformat (replace_char (CHR ''Z'') ''+00:00'' t2) = Inr d2"
    and "year d1 = year d2" and "month d1 = month d2" and "day d1 = day d2"
    and "hour d1 = hour d2" and "minute d1 = minute d2"
  shows "normalize_minute t1 = normalize_minute t2 \<and> build_idem s t1 = build_idem s t2"
proof -
  have "minute_text d1 = minute_text d2"
    using assms(3-7) by (simp add: minute_text_def)
  then have "normalize_minute t1 = normalize_minute t2"
    by (simp add: normalize_minute_value [OF assms(1)] normalize_minute_value [OF assms(2)])
  then show ?thesis
    by (simp add: build_idem_def idem_base_def)
qed

text \<open>
  Two timestamps written with the minute 10:07, one in UTC and one three hours
  ahead of it.
\<close>

theorem same_written_minute_same_key_witness:
  "fromisoformat (replace_char (CHR ''Z'') ''+00:00'' ''2024-03-01T10:07:42Z'') =
     Inr \<lparr>year = 2024, month = 3, day = 1, hour = 10, minute = 7, second = 42, microsecond = 0,
          tzinfo = Some 0\<rparr> \<and>
   fromisoformat (replace_char (CHR ''Z'') ''+00:00'' ''2024-03-01T10:07:05+03:00'') =
     Inr \<lparr>year = 2024, month = 3, day = 1, hour = 10, minute = 7, second = 5, microsecond = 0,
          tzinfo = Some 10800000000\<rparr> \<and>
   build_idem ''Paid 5 QAR'' ''2024-03-01T10:07:42Z'' =
     build_idem ''Paid 5 QAR'' ''2024-03-01T10:07:05+03:00''"
proof -
  let ?d1 = "\<lparr>year = 2024, month = 3, day = 1, hour = 10, minute = 7, second = 42, microsecond = 0,
          tzinfo = Some 0\<rparr>"
  let ?d2 = "\<lparr>year = 2024, month = 3, day = 1, hour = 10, minute = 7, second = 5, microsecond = 0,
          tzinfo = Some 10800000000\<rparr>"
  have p1: "fromisoformat (replace_char (CHR ''Z'') ''+00:00'' ''2024-03-01T10:07:42Z'') = Inr ?d1"
    by (simp add: timestamp_eval)
  have p2: "fromisoformat (replace_char (CHR ''Z'') ''+00:00'' ''2024-03-01T10:07:05+03:00'') = Inr ?d2"
    by (simp add: timestamp_eval)
  from same_written_minute_same_key [OF p1 p2, of "''Paid 5 QAR''"] p1 p2 show ?thesis
    by simp
qed

text \<open>
  C3 as stated gives the same key to timestamps of the same UTC minute, also
  when their offsets differ.  10:07:42 UTC and 13:07:42 at three hours ahead
  of UTC are the same instant; their keys for the empty text are the digests
  of \<open>|2024-03-01T10:07\<close> and of \<open>|2024-03-01T13:07\<close>, which differ.
\<close>

theorem same_utc_minute_counterexample:
  "utc_minute_of ''2024-03-01T10:07:42Z'' = Some 1064082847 \<and>
   utc_minute_of ''2024-03-01T13:07:42+03:00'' = Some 1064082847 \<and>
   build_idem [] ''2024-03-01T10:07:42Z'' =
     Inr ''cd0166f46f72d13e0c0c71a9cd2a9ad9b7e6fd6a2e0185af81dc8635b9e0bc1d'' \<and>
   build_idem [] ''2024-03-01T13:07:42+03:00'' =
     Inr ''cebf4273a5303aa003d96e5958069bad4b7dfbdff4fc5e37c900b85987d67a91'' \<and>
   build_idem [] ''2024-03-01T10:07:42Z'' \<noteq> build_idem [] ''2024-03-01T13:07:42+03:00''"
proof -
  have k1: "build_idem [] ''2024-03-01T10:07:42Z'' =
      Inr ''cd0166f46f72d13e0c0c71a9cd2a9ad9b7e6fd6a2e0185af81dc8635b9e0bc1d''"
    by (simp add: build_idem_def idem_base_def minute_of_example content_of_def join_split_def
        lower_def digest_utc)
  have k2: "build_idem [] ''2024-03-01T13:07:42+03:00'' =
      Inr ''cebf4273a5303aa003d96e5958069bad4b7dfbdff4fc5e37c900b85987d67a91''"
    by (simp add: build_idem_def idem_base_def minute_of_plus3 content_of_def join_split_def
        lower_def digest_plus3)
  have "build_idem [] ''2024-03-01T10:07:42Z'' \<noteq> build_idem [] ''2024-03-01T13:07:42+03:00''"
    unfolding k1 k2 by simp
  with k1 k2 utc_of_z utc_of_plus3 show ?thesis by simp
qed

end
